theory Spec2Isabelle
  imports Main "HOL-Library.Word"
begin

section \<open>Python strings\<close>

text \<open>
  A Python \<open>str\<close> is a sequence of Unicode code points and \<open>len\<close> counts code points,
  so a string is a list of code points. \<open>str\<close> turns an ASCII literal of the source
  into such a list.
\<close>

type_synonym pystr = "nat list"

definition str :: "string \<Rightarrow> pystr" where
  "str s = map of_char s"

text \<open>The characters \<open>str.strip()\<close> removes: the code points for which \<open>str.isspace\<close> holds.\<close>

definition isspace :: "nat \<Rightarrow> bool" where
  "isspace c \<longleftrightarrow>
     (9 \<le> c \<and> c \<le> 13) \<or> (28 \<le> c \<and> c \<le> 32) \<or> c = 133 \<or> c = 160 \<or> c = 5760 \<or>
     (8192 \<le> c \<and> c \<le> 8202) \<or> c = 8232 \<or> c = 8233 \<or> c = 8239 \<or> c = 8287 \<or> c = 12288"

definition strip :: "pystr \<Rightarrow> pystr" where
  "strip s = rev (dropWhile isspace (rev (dropWhile isspace s)))"

text \<open>\<open>s.split(sep)\<close> for a one-character separator; the result is never empty.\<close>

fun split_str :: "nat \<Rightarrow> pystr \<Rightarrow> pystr list" where
  "split_str sep [] = [[]]"
| "split_str sep (c # cs) =
     (if c = sep then [] # split_str sep cs
      else (c # hd (split_str sep cs)) # tl (split_str sep cs))"

text \<open>\<open>sep.join(parts)\<close> for a one-character separator.\<close>

fun join_str :: "nat \<Rightarrow> pystr list \<Rightarrow> pystr" where
  "join_str sep [] = []"
| "join_str sep [p] = p"
| "join_str sep (p # q # ps) = p @ sep # join_str sep (q # ps)"

definition newline :: nat where
  "newline = 10"

section \<open>The presentation library, as far as the builder uses it\<close>

text \<open>
  A paragraph holds its text, the font size of its default run properties (in English
  Metric Units, when set) and its outline level. A text frame always holds at least one
  paragraph.
\<close>

record para =
  p_text :: pystr
  font_size :: "nat option"
  level :: nat

datatype text_frame = TextFrame para "para list"

definition empty_paragraph :: para where
  "empty_paragraph = \<lparr>p_text = [], font_size = None, level = 0\<rparr>"

fun paragraphs :: "text_frame \<Rightarrow> para list" where
  "paragraphs (TextFrame p ps) = p # ps"

text \<open>\<open>Pt(n)\<close>: a length of \<open>n\<close> points in English Metric Units.\<close>

definition Pt :: "nat \<Rightarrow> nat" where
  "Pt n = n * 12700"

text \<open>
  \<open>text_frame.clear()\<close> removes every paragraph but the first and removes the text of
  the first, keeping its properties.
\<close>

fun clear :: "text_frame \<Rightarrow> text_frame" where
  "clear (TextFrame p ps) = TextFrame (p\<lparr>p_text := []\<rparr>) []"

text \<open>
  \<open>text_frame.add_paragraph()\<close> appends a new paragraph; the model appends the paragraph
  as the code leaves it after setting its fields.
\<close>

fun add_paragraph :: "para \<Rightarrow> text_frame \<Rightarrow> text_frame" where
  "add_paragraph q (TextFrame p ps) = TextFrame p (ps @ [q])"

datatype MSO_SHAPE_TYPE =
  AUTO_SHAPE | CHART | FREEFORM | GROUP | LINE | MEDIA | PICTURE | PLACEHOLDER | TABLE | TEXT_BOX

text \<open>
  A shape: its type, its placeholder format (the placeholder's \<open>idx\<close>; \<open>None\<close> for a
  shape that is not a placeholder) and its text frame.
\<close>

record shape =
  shape_type :: MSO_SHAPE_TYPE
  placeholder_format :: "nat option"
  text_frame :: text_frame

definition is_placeholder :: "shape \<Rightarrow> bool" where
  "is_placeholder sh \<longleftrightarrow> placeholder_format sh \<noteq> None"

text \<open>
  Text written into a paragraph goes into the XML of the slide. A code point that XML
  cannot carry (a surrogate, U+FFFE, U+FFFF) makes the assignment raise ValueError. The
  control characters 00 to 08 and 0C to 1F are stored escaped, each as the seven
  characters \<open>_xHHHH_\<close> with its code in hexadecimal; tab, newline and vertical tab
  are kept. What is read back is what is stored.
\<close>

definition xml_char :: "nat \<Rightarrow> bool" where
  "xml_char c \<longleftrightarrow> \<not> (55296 \<le> c \<and> c \<le> 57343) \<and> c \<noteq> 65534 \<and> c \<noteq> 65535"

definition ctrl_char :: "nat \<Rightarrow> bool" where
  "ctrl_char c \<longleftrightarrow> c \<le> 8 \<or> (12 \<le> c \<and> c \<le> 31)"

definition hex_digit :: "nat \<Rightarrow> nat" where
  "hex_digit d = (if d < 10 then 48 + d else 55 + d)"

definition escape_char :: "nat \<Rightarrow> pystr" where
  "escape_char c =
     (if ctrl_char c
      then str ''_x00'' @ [hex_digit (c div 16), hex_digit (c mod 16)] @ str ''_''
      else [c])"

definition escape_ctrl_chars :: "pystr \<Rightarrow> pystr" where
  "escape_ctrl_chars s = concat (map escape_char s)"

datatype exn =
  IndexError | KeyError pystr | ValueError | UnicodeDecodeError | JSONDecodeError pystr
  | TemplateError

definition xml_text :: "pystr \<Rightarrow> exn + pystr" where
  "xml_text s = (if list_all xml_char s then Inr (escape_ctrl_chars s) else Inl ValueError)"

text \<open>
  Assigning \<open>shape.text\<close> replaces the content of the text frame by one paragraph for
  each newline-separated piece of the string, written as above; reading it joins the
  paragraphs' texts with newlines.
\<close>

definition plain_paragraph :: "pystr \<Rightarrow> para" where
  "plain_paragraph t = \<lparr>p_text = t, font_size = None, level = 0\<rparr>"

definition set_text :: "pystr \<Rightarrow> shape \<Rightarrow> exn + shape" where
  "set_text t sh =
     (if list_all xml_char t
      then Inr (sh\<lparr>text_frame :=
                  TextFrame (plain_paragraph (escape_ctrl_chars (hd (split_str newline t))))
                    (map (\<lambda>piece. plain_paragraph (escape_ctrl_chars piece))
                       (tl (split_str newline t)))\<rparr>)
      else Inl ValueError)"

definition get_text :: "shape \<Rightarrow> pystr" where
  "get_text sh = join_str newline (map p_text (paragraphs (text_frame sh)))"

text \<open>
  A slide layout offers placeholders to clone, each with its \<open>idx\<close>. \<open>add_slide\<close> makes
  a slide of that layout whose shapes are fresh, empty clones of these placeholders.
\<close>

record layout =
  layout_name :: pystr
  cloneable_placeholders :: "nat list"

record slide =
  slide_layout :: layout
  shapes :: "shape list"

definition clone_placeholder :: "nat \<Rightarrow> shape" where
  "clone_placeholder idx =
     \<lparr>shape_type = PLACEHOLDER, placeholder_format = Some idx,
      text_frame = TextFrame empty_paragraph []\<rparr>"

definition add_slide :: "layout \<Rightarrow> slide" where
  "add_slide l = \<lparr>slide_layout = l, shapes = map clone_placeholder (cloneable_placeholders l)\<rparr>"

record presentation =
  slides :: "slide list"

text \<open>\<open>copy.deepcopy\<close> of a shape's element: an equal value that shares nothing.\<close>

definition deepcopy :: "shape \<Rightarrow> shape" where
  "deepcopy el = el"

section \<open>PresentationBuilder\<close>

text \<open>
  The builder object together with the lines printed so far. \<open>base_slide\<close> is a
  reference to a slide of \<open>prs\<close>, kept as its position in \<open>prs.slides\<close>. A method
  yields the builder it leaves, or the exception it raises together with the lines
  printed until then; the presentation an exception leaves behind is not kept, as the
  handler returns no document then. Standard output is taken to accept every string, so
  \<open>print\<close> does not raise.
\<close>

type_synonym 'a result = "(exn \<times> pystr list) + 'a"

record builder =
  prs :: presentation
  base_slide :: nat
  stdout :: "pystr list"

definition print :: "pystr \<Rightarrow> builder \<Rightarrow> builder" where
  "print line b = b\<lparr>stdout := stdout b @ [line]\<rparr>"

text \<open>
  \<open>__init__\<close>, given what the library's \<open>Presentation(template_path)\<close> yields: the
  presentation, or the exception it raises on a file it cannot read. \<open>prs.slides[0]\<close>
  raises IndexError when the template has no slide. An exception is returned with the
  lines printed before it.
\<close>

definition PresentationBuilder ::
  "pystr \<Rightarrow> exn + presentation \<Rightarrow> pystr list \<Rightarrow> builder result" where
  "PresentationBuilder template_path loaded out =
     (let out1 = out @ [str ''[INIT] Loading template from: '' @ template_path] in
      case loaded of
        Inl e \<Rightarrow> Inl (e, out1)
      | Inr p \<Rightarrow>
          if slides p = [] then Inl (IndexError, out1)
          else Inr \<lparr>prs = p, base_slide = 0,
                    stdout = out1 @ [str ''[INIT] Base slide loaded'']\<rparr>)"

text \<open>The body of the loop over the base slide's shapes in \<open>duplicate_base_slide\<close>.\<close>

definition copy_shape :: "shape \<Rightarrow> slide \<times> pystr list \<Rightarrow> slide \<times> pystr list" where
  "copy_shape sh = (\<lambda>(new_slide, out).
     if shape_type sh = GROUP then (new_slide, out @ [str ''[WARN] Skipping grouped shape''])
     else if is_placeholder sh then (new_slide, out)
     else (new_slide\<lparr>shapes := shapes new_slide @ [deepcopy sh]\<rparr>, out))"

text \<open>
  \<open>duplicate_base_slide\<close> returns the new slide as its position in \<open>prs.slides\<close>:
  \<open>add_slide\<close> appends it, so it is the last one.
\<close>

definition duplicate_base_slide :: "builder \<Rightarrow> nat \<times> builder" where
  "duplicate_base_slide b =
     (let out1 = stdout b @ [str ''[SLIDE] Duplicating base slide''];
          base = slides (prs b) ! base_slide b;
          new_slide = add_slide (slide_layout base);
          (new_slide', out2) = fold copy_shape (shapes base) (new_slide, out1)
      in (length (slides (prs b)),
          b\<lparr>prs := \<lparr>slides = slides (prs b) @ [new_slide']\<rparr>,
            stdout := out2 @ [str ''[SLIDE] Slide duplicated'']\<rparr>))"

text \<open>
  The loop of \<open>add_content_slide\<close> that looks for the placeholders: the last placeholder
  with \<open>idx\<close> 0 is the title target, the last other placeholder the content target.
  Each is kept as its position among the slide's shapes.
\<close>

definition find_step ::
  "nat \<times> shape \<Rightarrow> nat option \<times> nat option \<Rightarrow> nat option \<times> nat option" where
  "find_step = (\<lambda>(i, sh) (title_placeholder, content_placeholder).
     case placeholder_format sh of
       None \<Rightarrow> (title_placeholder, content_placeholder)
     | Some idx \<Rightarrow>
         if idx = 0 then (Some i, content_placeholder) else (title_placeholder, Some i))"

definition find_placeholders :: "shape list \<Rightarrow> nat option \<times> nat option" where
  "find_placeholders shs = fold find_step (enumerate 0 shs) (None, None)"

definition truncated_title :: "pystr \<Rightarrow> pystr" where
  "truncated_title title =
     (if length title < 200 then title else take 197 title @ str ''...'')"

text \<open>
  The loop over the lines of the content, acting on the content frame. \<open>p.text\<close> is
  assigned after the paragraph is added and before its size and level are set, and may
  raise.
\<close>

fun add_lines :: "pystr list \<Rightarrow> text_frame \<Rightarrow> exn + text_frame" where
  "add_lines [] content_frame = Inr content_frame"
| "add_lines (line # ls) content_frame =
     (let clean_line = strip line in
      if clean_line = [] then add_lines ls content_frame
      else (case xml_text clean_line of
              Inl e \<Rightarrow> Inl e
            | Inr stored \<Rightarrow>
                add_lines ls
                  (add_paragraph \<lparr>p_text = stored, font_size = Some (Pt 18), level = 0\<rparr>
                     content_frame)))"

definition fill_content :: "pystr \<Rightarrow> shape \<Rightarrow> exn + shape" where
  "fill_content content sh =
     (case add_lines (split_str newline (strip content)) (clear (text_frame sh)) of
        Inl e \<Rightarrow> Inl e
      | Inr content_frame \<Rightarrow> Inr (sh\<lparr>text_frame := content_frame\<rparr>))"

text \<open>
  The part of \<open>add_content_slide\<close> after the duplication: it acts on the new slide
  only, finding the two placeholders and writing first the title, then the content.
\<close>

definition write_title :: "pystr \<Rightarrow> nat option \<Rightarrow> slide \<Rightarrow> exn + slide" where
  "write_title title title_placeholder sl =
     (case title_placeholder of
        None \<Rightarrow> Inr sl
      | Some i \<Rightarrow>
          (case set_text (truncated_title title) (shapes sl ! i) of
             Inl e \<Rightarrow> Inl e
           | Inr sh \<Rightarrow> Inr (sl\<lparr>shapes := (shapes sl)[i := sh]\<rparr>)))"

definition write_content :: "pystr \<Rightarrow> nat option \<Rightarrow> slide \<Rightarrow> exn + slide" where
  "write_content content content_placeholder sl =
     (case content_placeholder of
        None \<Rightarrow> Inr sl
      | Some j \<Rightarrow>
          (case fill_content content (shapes sl ! j) of
             Inl e \<Rightarrow> Inl e
           | Inr sh \<Rightarrow> Inr (sl\<lparr>shapes := (shapes sl)[j := sh]\<rparr>)))"

definition populate_slide :: "pystr \<Rightarrow> pystr \<Rightarrow> slide \<Rightarrow> exn + slide" where
  "populate_slide title content sl =
     (let (title_placeholder, content_placeholder) = find_placeholders (shapes sl) in
      case write_title title title_placeholder sl of
        Inl e \<Rightarrow> Inl e
      | Inr sl1 \<Rightarrow> write_content content content_placeholder sl1)"

definition add_content_slide :: "pystr \<Rightarrow> pystr \<Rightarrow> builder \<Rightarrow> builder result" where
  "add_content_slide title content b =
     (let b1 = print (str ''[CONTENT] Adding slide: '' @ title) b;
          (ref, b2) = duplicate_base_slide b1
      in case populate_slide title content (slides (prs b2) ! ref) of
           Inl e \<Rightarrow> Inl (e, stdout b2)
         | Inr sl \<Rightarrow>
             Inr (print
                    (str ''[CONTENT] Slide '' @ [39] @ title @ [39] @ str '' added successfully'')
                    (b2\<lparr>prs := \<lparr>slides = (slides (prs b2))[ref := sl]\<rparr>\<rparr>)))"

text \<open>
  A slide descriptor is a JSON object with string values; \<open>slide_data[key]\<close> raises
  KeyError when the key is absent.
\<close>

type_synonym slide_data = "pystr \<rightharpoonup> pystr"

type_synonym content_dict = "(pystr \<times> slide_data list) list"

definition getitem :: "slide_data \<Rightarrow> pystr \<Rightarrow> exn + pystr" where
  "getitem d k = (case d k of None \<Rightarrow> Inl (KeyError k) | Some v \<Rightarrow> Inr v)"

text \<open>The text of an exception as an f-string shows it; for KeyError, the quoted key.\<close>

fun exn_str :: "exn \<Rightarrow> pystr" where
  "exn_str (KeyError k) = [39] @ k @ [39]"
| "exn_str (JSONDecodeError msg) = msg"
| "exn_str IndexError = str ''list index out of range''"
| "exn_str ValueError =
     str ''All strings must be XML compatible: Unicode or ASCII, no NULL bytes or control characters''"
| "exn_str UnicodeDecodeError = str ''invalid start byte''"
| "exn_str TemplateError = str ''Package not found''"

text \<open>
  The \<open>try\<close> statement in the loop over a section's descriptors: both subscripts are
  evaluated, in order, before \<open>add_content_slide\<close> is called. Only KeyError is caught;
  the ValueError that \<open>add_content_slide\<close> may raise passes through.
\<close>

definition try_add :: "slide_data \<Rightarrow> builder \<Rightarrow> builder result" where
  "try_add slide_data b =
     (case getitem slide_data (str ''title'') of
        Inl e \<Rightarrow> Inr (print (str ''[ERROR] Missing key in slide data: '' @ exn_str e) b)
      | Inr title \<Rightarrow>
          (case getitem slide_data (str ''content'') of
             Inl e \<Rightarrow> Inr (print (str ''[ERROR] Missing key in slide data: '' @ exn_str e) b)
           | Inr content \<Rightarrow> add_content_slide title content b))"

text \<open>A \<open>for\<close> loop whose body may raise: the first exception ends it.\<close>

fun for_each :: "('a \<Rightarrow> builder \<Rightarrow> builder result) \<Rightarrow> 'a list \<Rightarrow> builder \<Rightarrow> builder result" where
  "for_each body [] b = Inr b"
| "for_each body (x # xs) b =
     (case body x b of Inl e \<Rightarrow> Inl e | Inr b' \<Rightarrow> for_each body xs b')"

definition build_section :: "pystr \<times> slide_data list \<Rightarrow> builder \<Rightarrow> builder result" where
  "build_section = (\<lambda>(section, slides_data) b.
     case add_content_slide section [] (print (str ''[SECTION] Processing: '' @ section) b) of
       Inl e \<Rightarrow> Inl e
     | Inr b1 \<Rightarrow> for_each try_add slides_data b1)"

definition build_from_content :: "content_dict \<Rightarrow> builder \<Rightarrow> builder result" where
  "build_from_content content_dict b =
     (case for_each build_section content_dict
             (print (str ''[BUILD] Building presentation from content'') b) of
        Inl e \<Rightarrow> Inl e
      | Inr b' \<Rightarrow> Inr (print (str ''[BUILD] Presentation build complete'') b'))"

section \<open>The request handler\<close>

text \<open>\<open>save\<close> writes the presentation to \<open>output_path\<close>; the file holds the presentation.\<close>

definition save :: "pystr \<Rightarrow> builder \<Rightarrow> builder" where
  "save output_path b =
     print (str ''[SAVE] Save complete'')
       (print (str ''[SAVE] Saving presentation to: '' @ output_path) b)"

text \<open>
  An uploaded file: its file name and its bytes. \<open>request.files.get(name)\<close> is \<open>None\<close>
  for an absent part; a file object is true when its file name is not empty.
\<close>

record file_storage =
  filename :: pystr
  stream :: "8 word list"

definition truthy :: "file_storage option \<Rightarrow> bool" where
  "truthy f = (case f of None \<Rightarrow> False | Some fs \<Rightarrow> filename fs \<noteq> [])"

text \<open>
  Reading a file opened with \<open>encoding='utf-8'\<close>: the bytes are decoded strictly, and
  bytes that are not UTF-8 raise UnicodeDecodeError. \<open>decode_utf8\<close> works on the values
  of the bytes.
\<close>

definition cont :: "nat \<Rightarrow> bool" where
  "cont b \<longleftrightarrow> 128 \<le> b \<and> b \<le> 191"

fun decode_utf8 :: "nat list \<Rightarrow> pystr option" where
  "decode_utf8 [] = Some []"
| "decode_utf8 (b0 # bs) =
     (if b0 < 128 then map_option ((#) b0) (decode_utf8 bs)
      else if 194 \<le> b0 \<and> b0 \<le> 223 then
        (case bs of
           b1 # r \<Rightarrow>
             if cont b1
             then map_option ((#) ((b0 - 192) * 64 + (b1 - 128))) (decode_utf8 r)
             else None
         | _ \<Rightarrow> None)
      else if 224 \<le> b0 \<and> b0 \<le> 239 then
        (case bs of
           b1 # b2 # r \<Rightarrow>
             if (if b0 = 224 then 160 else 128) \<le> b1 \<and> b1 \<le> (if b0 = 237 then 159 else 191) \<and>
                cont b2
             then map_option ((#) ((b0 - 224) * 4096 + (b1 - 128) * 64 + (b2 - 128)))
                    (decode_utf8 r)
             else None
         | _ \<Rightarrow> None)
      else if 240 \<le> b0 \<and> b0 \<le> 244 then
        (case bs of
           b1 # b2 # b3 # r \<Rightarrow>
             if (if b0 = 240 then 144 else 128) \<le> b1 \<and> b1 \<le> (if b0 = 244 then 143 else 191) \<and>
                cont b2 \<and> cont b3
             then map_option
                    ((#) ((b0 - 240) * 262144 + (b1 - 128) * 4096 + (b2 - 128) * 64 + (b3 - 128)))
                    (decode_utf8 r)
             else None
         | _ \<Rightarrow> None)
      else None)"

text \<open>Text mode reads \<open>\r\n\<close> and \<open>\r\<close> as \<open>\n\<close>.\<close>

fun universal_newlines :: "pystr \<Rightarrow> pystr" where
  "universal_newlines [] = []"
| "universal_newlines [c] = [if c = 13 then 10 else c]"
| "universal_newlines (c # d # cs) =
     (if c = 13 \<and> d = 10 then 10 # universal_newlines cs
      else if c = 13 then 10 # universal_newlines (d # cs)
      else c # universal_newlines (d # cs))"

text \<open>
  The \<open>try\<close> block: open the saved content file as UTF-8 text and \<open>json.load\<close> it. The
  JSON parser is a parameter: it yields the outline, or the exception it raises
  (JSONDecodeError with its message for text that is not JSON).
\<close>

definition read_json :: "(pystr \<Rightarrow> exn + content_dict) \<Rightarrow> 8 word list \<Rightarrow> exn + content_dict" where
  "read_json json_loads bytes =
     (case decode_utf8 (map unat bytes) of
        None \<Rightarrow> Inl UnicodeDecodeError
      | Some text \<Rightarrow> json_loads (universal_newlines text))"

datatype response = Json_response "(pystr \<times> pystr) list" nat | File_response presentation pystr

text \<open>
  \<open>generate_ppt\<close>, given the name of the temporary directory, the JSON parser, the
  library's loader of presentation files and the file parts of the request. It yields
  the response it returns or the exception it lets escape, and the lines printed.
  Where the file objects are used they are present: the first test has passed.
\<close>

definition generate_ppt ::
  "pystr \<Rightarrow> (pystr \<Rightarrow> exn + content_dict) \<Rightarrow> (8 word list \<Rightarrow> exn + presentation) \<Rightarrow>
   (pystr \<rightharpoonup> file_storage) \<Rightarrow> (exn + response) \<times> pystr list" where
  "generate_ppt tmpdir json_loads load_presentation files =
     (let out0 = [str ''[REQUEST] /generate-ppt POST received''];
          template = files (str ''template'');
          content_file = files (str ''content'')
      in if \<not> truthy template \<or> \<not> truthy content_file then
           (Inr (Json_response
                   [(str ''error'', str ''Both template and content files are required.'')] 400),
            out0 @ [str ''[ERROR] Missing files in request''])
         else
           let template_path = tmpdir @ str ''/template.pptx'';
               output_path = tmpdir @ str ''/output.pptx'';
               out1 = out0 @ [str ''[TEMP] Temporary directory created at: '' @ tmpdir,
                              str ''[FILE] Saving uploaded files'',
                              str ''[FILE] Reading content JSON'']
           in case read_json json_loads (stream (the content_file)) of
                Inl (JSONDecodeError msg) \<Rightarrow>
                  (Inr (Json_response [(str ''error'', str ''Invalid JSON content file.'')] 400),
                   out1 @ [str ''[ERROR] JSON decode failed: '' @ msg])
              | Inl e \<Rightarrow> (Inl e, out1)
              | Inr content \<Rightarrow>
                  (case PresentationBuilder template_path
                          (load_presentation (stream (the template)))
                          (out1 @ [str ''[PROCESS] Generating presentation'']) of
                     Inl (e, out) \<Rightarrow> (Inl e, out)
                   | Inr builder \<Rightarrow>
                       (case build_from_content content builder of
                          Inl (e, out) \<Rightarrow> (Inl e, out)
                        | Inr built \<Rightarrow>
                            let b = save output_path built
                            in (Inr (File_response (prs b) (str ''Generated_Presentation.pptx'')),
                                stdout b @ [str ''[RESPONSE] Sending file to client'']))))"

text \<open>
  The status of the HTTP response: that of the response returned, and 500 when an
  exception escapes the handler.
\<close>

fun http_status :: "exn + response \<Rightarrow> nat" where
  "http_status (Inl e) = 500"
| "http_status (Inr (Json_response body status)) = status"
| "http_status (Inr (File_response p name)) = 200"

section \<open>Notions used to state the properties\<close>

text \<open>
  A builder is valid when its base slide reference points into the presentation, as
  it does after \<open>__init__\<close>.
\<close>

definition valid_builder :: "builder \<Rightarrow> bool" where
  "valid_builder b \<longleftrightarrow> base_slide b < length (slides (prs b))"

text \<open>
  The slide that \<open>duplicate_base_slide\<close> returns, and the one \<open>add_content_slide\<close> leaves
  last when it does not raise.
\<close>

definition duplicated_slide :: "builder \<Rightarrow> slide" where
  "duplicated_slide b =
     slides (prs (snd (duplicate_base_slide b))) ! fst (duplicate_base_slide b)"

definition added_slide :: "builder \<Rightarrow> pystr \<Rightarrow> pystr \<Rightarrow> slide option" where
  "added_slide b title content =
     (case add_content_slide title content b of
        Inl e \<Rightarrow> None
      | Inr b' \<Rightarrow> Some (last (slides (prs b'))))"

text \<open>
  The text read from the shape that \<open>add_content_slide\<close> takes as the title placeholder
  of a slide, and the text frame of the one it takes as the content placeholder.
\<close>

definition title_text :: "slide \<Rightarrow> pystr option" where
  "title_text sl = map_option (\<lambda>i. get_text (shapes sl ! i)) (fst (find_placeholders (shapes sl)))"

definition content_frame :: "slide \<Rightarrow> text_frame option" where
  "content_frame sl =
     map_option (\<lambda>j. text_frame (shapes sl ! j)) (snd (find_placeholders (shapes sl)))"

text \<open>The exception a method raised, if any, and the slides of the builder it left.\<close>

definition raised :: "'a result \<Rightarrow> exn option" where
  "raised r = (case r of Inl e \<Rightarrow> Some (fst e) | Inr x \<Rightarrow> None)"

definition slides_of :: "builder result \<Rightarrow> slide list option" where
  "slides_of r = (case r of Inl e \<Rightarrow> None | Inr b \<Rightarrow> Some (slides (prs b)))"

text \<open>
  A string is writable when XML can carry each of its code points; an outline is
  writable when its section names are, and the title and content of each descriptor that
  has both keys.
\<close>

definition writable :: "pystr \<Rightarrow> bool" where
  "writable s = list_all xml_char s"

definition writable_descriptor :: "slide_data \<Rightarrow> bool" where
  "writable_descriptor d =
     (case d (str ''title'') of
        None \<Rightarrow> True
      | Some t \<Rightarrow> (case d (str ''content'') of None \<Rightarrow> True | Some c \<Rightarrow> writable t \<and> writable c))"

definition writable_outline :: "content_dict \<Rightarrow> bool" where
  "writable_outline cd =
     list_all (\<lambda>(name, ds). writable name \<and> list_all writable_descriptor ds) cd"

text \<open>
  The arguments with which the \<open>try\<close> statement calls \<open>add_content_slide\<close> for a
  descriptor, if both keys are present.
\<close>

definition slide_args :: "slide_data \<Rightarrow> (pystr \<times> pystr) option" where
  "slide_args d =
     (case d (str ''title'') of
        None \<Rightarrow> None
      | Some t \<Rightarrow> (case d (str ''content'') of None \<Rightarrow> None | Some c \<Rightarrow> Some (t, c)))"

text \<open>The line that reports the first missing key of a descriptor.\<close>

definition missing_key_line :: "slide_data \<Rightarrow> pystr" where
  "missing_key_line d =
     str ''[ERROR] Missing key in slide data: '' @ [39] @
       (if d (str ''title'') = None then str ''title'' else str ''content'') @ [39]"

text \<open>The lines among \<open>out\<close> that report an error, and the lines printed between two states.\<close>

definition is_error :: "pystr \<Rightarrow> bool" where
  "is_error l \<longleftrightarrow> take 7 l = str ''[ERROR]''"

definition error_lines :: "pystr list \<Rightarrow> pystr list" where
  "error_lines out = filter is_error out"

definition printed :: "builder \<Rightarrow> builder \<Rightarrow> pystr list" where
  "printed b b' = drop (length (stdout b)) (stdout b')"

text \<open>\<open>b'\<close> has printed more lines than \<open>b\<close>, whose error lines are \<open>errs\<close>.\<close>

definition extends :: "builder \<Rightarrow> builder \<Rightarrow> pystr list \<Rightarrow> bool" where
  "extends b b' errs \<longleftrightarrow> (\<exists>ls. stdout b' = stdout b @ ls \<and> error_lines ls = errs)"

text \<open>
  What a part of the build makes of a builder \<open>b\<close>: a valid builder \<open>b'\<close> that duplicates
  the same slide, whose slides are those of \<open>b\<close> followed by \<open>new\<close>, and that has printed
  more lines, whose error lines are \<open>errs\<close>.
\<close>

definition progress :: "builder \<Rightarrow> builder \<Rightarrow> slide option list \<Rightarrow> pystr list \<Rightarrow> bool" where
  "progress b b' new errs \<longleftrightarrow>
     valid_builder b' \<and> duplicated_slide b' = duplicated_slide b \<and>
     map Some (slides (prs b')) = map Some (slides (prs b)) @ new \<and> extends b b' errs"

text \<open>
  The layout of the base slide offers a title placeholder (\<open>idx\<close> 0), or a body
  placeholder (any other \<open>idx\<close>).
\<close>

definition has_title_placeholder :: "builder \<Rightarrow> bool" where
  "has_title_placeholder b \<longleftrightarrow>
     0 \<in> set (cloneable_placeholders (slide_layout (slides (prs b) ! base_slide b)))"

definition has_body_placeholder :: "builder \<Rightarrow> bool" where
  "has_body_placeholder b \<longleftrightarrow>
     (\<exists>idx\<in>set (cloneable_placeholders (slide_layout (slides (prs b) ! base_slide b))).
        idx \<noteq> 0)"

text \<open>The lines of a content string that are not blank, each stripped.\<close>

definition content_lines :: "pystr \<Rightarrow> pystr list" where
  "content_lines s = filter (\<lambda>l. l \<noteq> []) (map strip (split_str newline s))"

text \<open>The paragraph that the loop over the content lines appends for a stripped line.\<close>

definition body_paragraph :: "pystr \<Rightarrow> para" where
  "body_paragraph t = \<lparr>p_text = escape_ctrl_chars t, font_size = Some (Pt 18), level = 0\<rparr>"

section \<open>A small template and outline\<close>

text \<open>
  A template of one slide whose layout offers a title placeholder (\<open>idx\<close> 0) and a body
  placeholder (\<open>idx\<close> 1); the slide carries both placeholders, a picture, a text box
  and a grouped shape.
\<close>

definition example_layout :: layout where
  "example_layout = \<lparr>layout_name = str ''Title and Content'', cloneable_placeholders = [0, 1]\<rparr>"

definition example_picture :: shape where
  "example_picture =
     \<lparr>shape_type = PICTURE, placeholder_format = None, text_frame = TextFrame empty_paragraph []\<rparr>"

definition example_text_box :: shape where
  "example_text_box =
     \<lparr>shape_type = TEXT_BOX, placeholder_format = None,
      text_frame = TextFrame (plain_paragraph (str ''University'')) []\<rparr>"

definition example_group :: shape where
  "example_group =
     \<lparr>shape_type = GROUP, placeholder_format = None, text_frame = TextFrame empty_paragraph []\<rparr>"

definition example_base :: slide where
  "example_base =
     \<lparr>slide_layout = example_layout,
      shapes = [(clone_placeholder 0)\<lparr>text_frame :=
                   TextFrame (plain_paragraph (str ''Template'')) []\<rparr>,
                clone_placeholder 1, example_picture, example_group, example_text_box]\<rparr>"

definition example_template :: presentation where
  "example_template = \<lparr>slides = [example_base]\<rparr>"

text \<open>The builder that \<open>__init__\<close> makes of it, nothing having been printed before.\<close>

definition example_builder :: builder where
  "example_builder =
     \<lparr>prs = example_template, base_slide = 0,
      stdout = [str ''[INIT] Loading template from: '' @ str ''/tmp/x/template.pptx'',
                str ''[INIT] Base slide loaded'']\<rparr>"

text \<open>Three descriptors with both keys, and one that lacks \<open>content\<close>.\<close>

definition example_A :: slide_data where
  "example_A = [str ''title'' \<mapsto> str ''A'', str ''content'' \<mapsto> str ''x'']"

definition example_C :: slide_data where
  "example_C = [str ''title'' \<mapsto> str ''C'', str ''content'' \<mapsto> str ''y'']"

definition example_D :: slide_data where
  "example_D = [str ''title'' \<mapsto> str ''D'', str ''content'' \<mapsto> str ''z'']"

definition example_missing :: slide_data where
  "example_missing = [str ''title'' \<mapsto> str ''B'']"

text \<open>An outline of two sections; the second descriptor of the first section lacks \<open>content\<close>.\<close>

definition example_outline :: content_dict where
  "example_outline =
     [(str ''Intro'', [example_A, example_missing, example_C]), (str ''End'', [example_D])]"

text \<open>The same outline without the descriptor that lacks a key.\<close>

definition example_full_outline :: content_dict where
  "example_full_outline = [(str ''Intro'', [example_A, example_C]), (str ''End'', [example_D])]"

text \<open>
  A content string of three lines, the first with a carriage return inside, the second
  of whitespace only: \<open>"a\rb\n \t\n b "\<close>; a
  title of exactly 200 characters; a title of 199 characters that starts with the control
  character 1F; and a descriptor with both keys whose title is the code point U+FFFF.
\<close>

definition example_content :: pystr where
  "example_content = [97, 13, 98, 10, 32, 9, 10, 32, 98, 32]"

definition example_title_200 :: pystr where
  "example_title_200 = replicate 200 97"

definition example_title_ctrl :: pystr where
  "example_title_ctrl = 31 # replicate 198 97"

definition example_unwritable :: slide_data where
  "example_unwritable = [str ''title'' \<mapsto> [65535], str ''content'' \<mapsto> str ''x'']"

text \<open>
  An outline whose descriptors all have both keys, one of them with the title U+FFFF;
  and an outline where such a descriptor stands between one that lacks a key and one that
  is in order.
\<close>

definition example_keyed_unwritable :: content_dict where
  "example_keyed_unwritable = [(str ''Intro'', [example_A, example_unwritable, example_C])]"

definition example_abort_outline :: content_dict where
  "example_abort_outline =
     [(str ''Intro'', [example_missing, example_unwritable, example_C])]"

text \<open>
  Stand-ins for the parameters of the handler: a parser that accepts the text \<open>{}\<close> only,
  and a loader that yields the example template; and three requests: one without the
  template part, one whose content is the text \<open>{\<close>, one whose content is the byte 0xFF.
\<close>

definition example_tmpdir :: pystr where
  "example_tmpdir = str ''/tmp/x''"

definition example_json_loads :: "pystr \<Rightarrow> exn + content_dict" where
  "example_json_loads text =
     (if text = str ''{}'' then Inr [] else Inl (JSONDecodeError (str ''Expecting value'')))"

definition example_load :: "8 word list \<Rightarrow> exn + presentation" where
  "example_load bytes = Inr example_template"

definition example_template_file :: file_storage where
  "example_template_file = \<lparr>filename = str ''t.pptx'', stream = [80, 75]\<rparr>"

definition request_no_template :: "pystr \<rightharpoonup> file_storage" where
  "request_no_template = [str ''content'' \<mapsto> \<lparr>filename = str ''c.json'', stream = [123, 125]\<rparr>]"

definition request_bad_json :: "pystr \<rightharpoonup> file_storage" where
  "request_bad_json =
     [str ''template'' \<mapsto> example_template_file,
      str ''content'' \<mapsto> \<lparr>filename = str ''c.json'', stream = [123]\<rparr>]"

definition request_bad_utf8 :: "pystr \<rightharpoonup> file_storage" where
  "request_bad_utf8 =
     [str ''template'' \<mapsto> example_template_file,
      str ''content'' \<mapsto> \<lparr>filename = str ''c.json'', stream = [255]\<rparr>]"

section \<open>Basic facts\<close>

lemma split_str_ne: "split_str sep s \<noteq> []"
  by (induction s) auto

lemma join_split: "join_str sep (split_str sep s) = s"
proof (induction s)
  case Nil
  then show ?case by simp
next
  case (Cons c cs)
  obtain l ls where r: "split_str sep cs = l # ls"
    using split_str_ne [of sep cs] by (cases "split_str sep cs") auto
  with Cons show ?case by (cases ls) auto
qed

lemma join_str_prefix: "join_str sep ((a @ x) # xs) = a @ join_str sep (x # xs)"
  by (cases xs) simp_all

lemma escape_char_newline: "escape_char newline = [newline]"
  by (simp add: escape_char_def ctrl_char_def newline_def)

lemma escape_ctrl_chars_simps [simp]:
  "escape_ctrl_chars [] = []"
  "escape_ctrl_chars (c # cs) = escape_char c @ escape_ctrl_chars cs"
  "escape_ctrl_chars (xs @ ys) = escape_ctrl_chars xs @ escape_ctrl_chars ys"
  by (simp_all add: escape_ctrl_chars_def)

lemma join_escape_split:
  "join_str newline (map escape_ctrl_chars (split_str newline t)) = escape_ctrl_chars t"
proof (induction t)
  case Nil
  then show ?case by simp
next
  case (Cons c cs)
  obtain l ls where r: "split_str newline cs = l # ls"
    using split_str_ne [of newline cs] by (cases "split_str newline cs") auto
  show ?case
  proof (cases "c = newline")
    case True
    with Cons show ?thesis by (simp add: r escape_char_newline)
  next
    case False
    with Cons show ?thesis by (simp add: r join_str_prefix)
  qed
qed

lemma get_set_text:
  assumes "set_text t sh = Inr sh'"
  shows "get_text sh' = escape_ctrl_chars t"
proof -
  obtain l ls where r: "split_str newline t = l # ls"
    using split_str_ne [of newline t] by (cases "split_str newline t") auto
  have m: "map p_text (map (\<lambda>piece. plain_paragraph (escape_ctrl_chars piece)) ls) =
        map escape_ctrl_chars ls"
    by (simp add: plain_paragraph_def comp_def)
  from assms have "text_frame sh' =
      TextFrame (plain_paragraph (escape_ctrl_chars l))
        (map (\<lambda>piece. plain_paragraph (escape_ctrl_chars piece)) ls)"
    by (auto simp: set_text_def r split: if_splits)
  then have "get_text sh' = join_str newline (map escape_ctrl_chars (l # ls))"
    by (simp add: get_text_def plain_paragraph_def comp_def)
  then show ?thesis
    using join_escape_split [of t] by (simp add: r)
qed

lemma escape_no_ctrl: "list_all (\<lambda>c. \<not> ctrl_char c) s \<Longrightarrow> escape_ctrl_chars s = s"
  by (induction s) (simp_all add: escape_char_def)

lemma copy_shape_pair:
  "copy_shape sh (sl, out) =
     (if shape_type sh = GROUP then (sl, out @ [str ''[WARN] Skipping grouped shape''])
      else if is_placeholder sh then (sl, out)
      else (sl\<lparr>shapes := shapes sl @ [deepcopy sh]\<rparr>, out))"
  by (simp add: copy_shape_def)

lemma fold_copy_shape:
  "fold copy_shape shs (sl, out) =
     (sl\<lparr>shapes := shapes sl @ map deepcopy (filter (\<lambda>s. shape_type s \<noteq> GROUP \<and> \<not> is_placeholder s) shs)\<rparr>,
      out @ replicate (length (filter (\<lambda>s. shape_type s = GROUP) shs)) (str ''[WARN] Skipping grouped shape''))"
proof (induction shs arbitrary: sl out)
  case Nil
  then show ?case by simp
next
  case (Cons s shs)
  show ?case
  proof (cases "shape_type s = GROUP")
    case True
    then show ?thesis
      by (simp add: Cons copy_shape_pair replicate_app_Cons_same)
  next
    case False
    then show ?thesis
      by (simp add: Cons copy_shape_pair)
  qed
qed

lemma duplicate_base_slide_eq:
  "duplicate_base_slide b =
     (length (slides (prs b)),
      b\<lparr>prs := \<lparr>slides = slides (prs b) @
           [\<lparr>slide_layout = slide_layout (slides (prs b) ! base_slide b),
             shapes = map clone_placeholder (cloneable_placeholders (slide_layout (slides (prs b) ! base_slide b)))
               @ map deepcopy (filter (\<lambda>s. shape_type s \<noteq> GROUP \<and> \<not> is_placeholder s) (shapes (slides (prs b) ! base_slide b)))\<rparr>]\<rparr>,
        stdout := stdout b @ [str ''[SLIDE] Duplicating base slide'']
           @ replicate (length (filter (\<lambda>s. shape_type s = GROUP) (shapes (slides (prs b) ! base_slide b)))) (str ''[WARN] Skipping grouped shape'')
           @ [str ''[SLIDE] Slide duplicated'']\<rparr>)"
  by (simp add: duplicate_base_slide_def Let_def fold_copy_shape add_slide_def)


lemma find_placeholders_Nil: "find_placeholders [] = (None, None)"
  by (simp add: find_placeholders_def)

lemma find_placeholders_snoc:
  "find_placeholders (shs @ [s]) =
     (case placeholder_format s of
        None \<Rightarrow> find_placeholders shs
      | Some idx \<Rightarrow>
          if idx = 0 then (Some (length shs), snd (find_placeholders shs))
          else (fst (find_placeholders shs), Some (length shs)))"
  by (simp add: find_placeholders_def enumerate_append_eq find_step_def split: prod.splits option.splits)

lemma find_placeholders_title:
  "fst (find_placeholders shs) = Some i \<Longrightarrow> i < length shs \<and> placeholder_format (shs ! i) = Some 0"
proof (induction shs rule: rev_induct)
  case Nil
  then show ?case by (simp add: find_placeholders_Nil)
next
  case (snoc s shs)
  then show ?case
    by (auto simp: find_placeholders_snoc nth_append split: option.splits if_splits)
qed

lemma find_placeholders_content:
  "snd (find_placeholders shs) = Some j \<Longrightarrow>
     j < length shs \<and> (\<exists>idx. placeholder_format (shs ! j) = Some idx \<and> idx \<noteq> 0)"
proof (induction shs rule: rev_induct)
  case Nil
  then show ?case by (simp add: find_placeholders_Nil)
next
  case (snoc s shs)
  then show ?case
    by (auto simp: find_placeholders_snoc nth_append split: option.splits if_splits)
qed

lemma find_placeholders_content_ex:
  "snd (find_placeholders shs) \<noteq> None \<longleftrightarrow>
     (\<exists>s\<in>set shs. \<exists>idx. placeholder_format s = Some idx \<and> idx \<noteq> 0)"
  by (induction shs rule: rev_induct)
     (auto simp: find_placeholders_Nil find_placeholders_snoc split: option.splits)

lemma find_placeholders_title_ex:
  "fst (find_placeholders shs) \<noteq> None \<longleftrightarrow> (\<exists>s\<in>set shs. placeholder_format s = Some 0)"
  by (induction shs rule: rev_induct)
     (auto simp: find_placeholders_Nil find_placeholders_snoc split: option.splits)

lemma find_placeholders_cong:
  "map placeholder_format shs = map placeholder_format shs' \<Longrightarrow>
     find_placeholders shs = find_placeholders shs'"
proof (induction shs arbitrary: shs' rule: rev_induct)
  case Nil
  then show ?case by simp
next
  case (snoc s shs)
  then obtain s' shs0 where e: "shs' = shs0 @ [s']"
    by (cases shs' rule: rev_cases) auto
  with snoc.prems have "map placeholder_format shs = map placeholder_format shs0"
    and "placeholder_format s = placeholder_format s'" by auto
  moreover from this have "length shs = length shs0" by (metis length_map)
  ultimately show ?case
    using snoc.IH [of shs0] by (simp add: e find_placeholders_snoc split: option.splits)
qed

lemma find_placeholders_append_plain:
  "\<forall>s\<in>set ex. placeholder_format s = None \<Longrightarrow>
     find_placeholders (shs @ ex) = find_placeholders shs"
proof (induction ex rule: rev_induct)
  case Nil
  then show ?case by simp
next
  case (snoc s ex)
  then show ?case
    using find_placeholders_snoc [of "shs @ ex" s] by simp
qed


lemma duplicated_slide_eq:
  "duplicated_slide b =
     \<lparr>slide_layout = slide_layout (slides (prs b) ! base_slide b),
      shapes = map clone_placeholder (cloneable_placeholders (slide_layout (slides (prs b) ! base_slide b)))
        @ map deepcopy (filter (\<lambda>s. shape_type s \<noteq> GROUP \<and> \<not> is_placeholder s) (shapes (slides (prs b) ! base_slide b)))\<rparr>"
  by (simp add: duplicated_slide_def duplicate_base_slide_eq)

lemma duplicate_base_slide_prs:
  "slides (prs (snd (duplicate_base_slide b))) = slides (prs b) @ [duplicated_slide b]"
  by (simp add: duplicated_slide_def duplicate_base_slide_eq)

lemma print_simps [simp]:
  "prs (print l b) = prs b"
  "base_slide (print l b) = base_slide b"
  "stdout (print l b) = stdout b @ [l]"
  by (simp_all add: print_def)

lemma duplicated_slide_print [simp]: "duplicated_slide (print l b) = duplicated_slide b"
  by (simp add: duplicated_slide_eq print_def)

lemma valid_print [simp]: "valid_builder (print l b) = valid_builder b"
  by (simp add: valid_builder_def)

lemma is_error_simps [simp]:
  "\<not> is_error (str ''[CONTENT] Adding slide: '' @ t)"
  "\<not> is_error (str ''[CONTENT] Slide '' @ t')"
  "\<not> is_error (str ''[SLIDE] Duplicating base slide'')"
  "\<not> is_error (str ''[SLIDE] Slide duplicated'')"
  "\<not> is_error (str ''[WARN] Skipping grouped shape'')"
  "\<not> is_error (str ''[SECTION] Processing: '' @ t)"
  "\<not> is_error (str ''[BUILD] Building presentation from content'')"
  "\<not> is_error (str ''[BUILD] Presentation build complete'')"
  "is_error (missing_key_line d)"
  by (simp_all add: is_error_def str_def missing_key_line_def)

lemma error_lines_simps [simp]:
  "error_lines [] = []"
  "error_lines (xs @ ys) = error_lines xs @ error_lines ys"
  "error_lines (l # ls) = (if is_error l then l # error_lines ls else error_lines ls)"
  by (simp_all add: error_lines_def)

lemma error_lines_warn [simp]:
  "error_lines (replicate n (str ''[WARN] Skipping grouped shape'')) = []"
  by (induction n) simp_all

lemma extends_refl: "extends b b []"
  by (simp add: extends_def)

lemma extends_trans: "extends b b' e \<Longrightarrow> extends b' b'' e' \<Longrightarrow> extends b b'' (e @ e')"
  by (auto simp: extends_def)

lemma extends_print: "extends b (print l b) (error_lines [l])"
  by (simp add: extends_def)

lemma extends_printed: "extends b b' e \<Longrightarrow> error_lines (printed b b') = e"
  by (auto simp: extends_def printed_def)

section \<open>Stripping and splitting\<close>

lemma all_dropWhile: "(\<forall>x\<in>set (dropWhile P s). P x) \<longleftrightarrow> (\<forall>x\<in>set s. P x)"
proof
  assume h: "\<forall>x\<in>set (dropWhile P s). P x"
  have "dropWhile P s = []"
  proof (rule ccontr)
    assume n: "dropWhile P s \<noteq> []"
    then have "\<not> P (hd (dropWhile P s))" by (rule hd_dropWhile)
    moreover have "hd (dropWhile P s) \<in> set (dropWhile P s)" using n by simp
    ultimately show False using h by blast
  qed
  then show "\<forall>x\<in>set s. P x" by (simp add: dropWhile_eq_Nil_conv)
next
  assume "\<forall>x\<in>set s. P x"
  then show "\<forall>x\<in>set (dropWhile P s). P x" by (auto dest: set_dropWhileD)
qed

lemma strip_Nil_iff: "strip s = [] \<longleftrightarrow> (\<forall>c\<in>set s. isspace c)"
  by (simp add: strip_def dropWhile_eq_Nil_conv all_dropWhile)

lemma strip_Cons_space: "isspace c \<Longrightarrow> strip (c # s) = strip s"
  by (simp add: strip_def)

lemma strip_snoc_space: "isspace c \<Longrightarrow> strip (s @ [c]) = strip s"
proof (cases "\<forall>x\<in>set s. isspace x")
  case True
  assume "isspace c"
  with True have "strip (s @ [c]) = []" "strip s = []" by (simp_all add: strip_Nil_iff)
  then show ?thesis by simp
next
  case False
  assume sp: "isspace c"
  from False obtain x where "x \<in> set s" "\<not> isspace x" by blast
  then have "dropWhile isspace (s @ [c]) = dropWhile isspace s @ [c]"
    by (rule dropWhile_append1)
  with sp show ?thesis by (simp add: strip_def)
qed

lemma split_str_snoc:
  "split_str sep (s @ [c]) =
     (if c = sep then split_str sep s @ [[]]
      else butlast (split_str sep s) @ [last (split_str sep s) @ [c]])"
proof (induction s)
  case Nil
  then show ?case by simp
next
  case (Cons x s)
  obtain l ls where r: "split_str sep s = l # ls"
    using split_str_ne [of sep s] by (cases "split_str sep s") auto
  show ?case
    using Cons by (cases ls) (auto simp: r)
qed

lemma isspace_newline: "isspace newline"
  by (simp add: isspace_def newline_def)

lemma strip_Nil [simp]: "strip [] = []"
  by (simp add: strip_def)

lemma content_lines_Cons_space:
  assumes "isspace c"
  shows "content_lines (c # s) = content_lines s"
proof -
  obtain l ls where r: "split_str newline s = l # ls"
    using split_str_ne [of newline s] by (cases "split_str newline s") auto
  show ?thesis
  proof (cases "c = newline")
    case True
    then show ?thesis by (simp add: content_lines_def)
  next
    case False
    then have "split_str newline (c # s) = (c # l) # ls" by (simp add: r)
    then show ?thesis
      by (simp add: content_lines_def r strip_Cons_space [OF assms])
  qed
qed

lemma content_lines_snoc_space:
  assumes "isspace c"
  shows "content_lines (s @ [c]) = content_lines s"
proof -
  obtain ls l where r: "split_str newline s = ls @ [l]"
    using split_str_ne [of newline s] by (cases "split_str newline s" rule: rev_cases) auto
  show ?thesis
  proof (cases "c = newline")
    case True
    then have "split_str newline (s @ [c]) = split_str newline s @ [[]]"
      by (simp add: split_str_snoc)
    then show ?thesis by (simp add: content_lines_def)
  next
    case False
    then have "split_str newline (s @ [c]) = ls @ [l @ [c]]"
      by (simp add: split_str_snoc r)
    then show ?thesis
      by (simp add: content_lines_def r strip_snoc_space [OF assms])
  qed
qed

lemma content_lines_dropWhile: "content_lines (dropWhile isspace s) = content_lines s"
  by (induction s) (simp_all add: content_lines_Cons_space)

lemma content_lines_drop_trailing:
  "content_lines (rev (dropWhile isspace (rev s))) = content_lines s"
  by (induction s rule: rev_induct) (simp_all add: content_lines_snoc_space)

lemma content_lines_strip: "content_lines (strip s) = content_lines s"
  by (simp add: strip_def content_lines_drop_trailing content_lines_dropWhile)

lemma set_strip: "set (strip s) \<subseteq> set s"
proof
  fix x
  assume "x \<in> set (strip s)"
  then have "x \<in> set (dropWhile isspace (rev (dropWhile isspace s)))"
    by (simp add: strip_def)
  then have "x \<in> set (rev (dropWhile isspace s))" by (rule set_dropWhileD)
  then have "x \<in> set (dropWhile isspace s)" by simp
  then show "x \<in> set s" by (rule set_dropWhileD)
qed

lemma set_split_str: "l \<in> set (split_str sep s) \<Longrightarrow> set l \<subseteq> set s"
proof (induction s arbitrary: l)
  case Nil
  then show ?case by simp
next
  case (Cons c cs)
  obtain x xs where r: "split_str sep cs = x # xs"
    using split_str_ne [of sep cs] by (cases "split_str sep cs") auto
  from Cons.prems have "l = [] \<or> l = c # x \<or> l \<in> set (split_str sep cs)"
    by (auto simp: r split: if_splits)
  then show ?case
    using Cons.IH [of l] Cons.IH [of x] by (auto simp: r)
qed

lemma writable_content_lines: "writable s \<Longrightarrow> list_all writable (content_lines s)"
proof -
  assume w: "writable s"
  have "writable l" if "l \<in> set (content_lines s)" for l
  proof -
    from that obtain l0 where "l0 \<in> set (split_str newline s)" "l = strip l0"
      by (auto simp: content_lines_def)
    then have "set l \<subseteq> set s"
      using set_strip [of l0] set_split_str [of l0 newline s] by auto
    with w show ?thesis
      by (auto simp: writable_def list_all_iff)
  qed
  then show ?thesis by (simp add: list_all_iff)
qed

section \<open>Writing into a text frame\<close>

lemma xml_text_eq: "xml_text s = (if writable s then Inr (escape_ctrl_chars s) else Inl ValueError)"
  by (simp add: xml_text_def writable_def)

lemma add_lines_eq:
  "add_lines ls (TextFrame p ps) =
     (if list_all writable (filter (\<lambda>l. l \<noteq> []) (map strip ls))
      then Inr (TextFrame p (ps @ map body_paragraph (filter (\<lambda>l. l \<noteq> []) (map strip ls))))
      else Inl ValueError)"
proof (induction ls arbitrary: ps)
  case Nil
  then show ?case by simp
next
  case (Cons line ls)
  show ?case
  proof (cases "strip line = []")
    case True
    then show ?thesis by (simp add: Cons)
  next
    case False
    then show ?thesis
      by (cases "writable (strip line)")
         (simp_all add: Cons xml_text_eq body_paragraph_def Let_def)
  qed
qed

lemma fill_content_fresh:
  assumes "text_frame sh = TextFrame empty_paragraph []"
  shows "fill_content content sh =
     (if list_all writable (content_lines content)
      then Inr (sh\<lparr>text_frame :=
                  TextFrame empty_paragraph (map body_paragraph (content_lines content))\<rparr>)
      else Inl ValueError)"
proof -
  have "fill_content content sh =
     (if list_all writable (content_lines (strip content))
      then Inr (sh\<lparr>text_frame :=
                  TextFrame empty_paragraph (map body_paragraph (content_lines (strip content)))\<rparr>)
      else Inl ValueError)"
    unfolding content_lines_def
    by (simp add: fill_content_def add_lines_eq assms empty_paragraph_def)
  then show ?thesis by (simp only: content_lines_strip)
qed

lemma placeholder_format_set_text:
  "set_text t sh = Inr sh' \<Longrightarrow> placeholder_format sh' = placeholder_format sh"
  by (auto simp: set_text_def split: if_splits)

lemma placeholder_format_fill_content:
  "fill_content c sh = Inr sh' \<Longrightarrow> placeholder_format sh' = placeholder_format sh"
  by (auto simp: fill_content_def split: sum.splits)

lemma set_text_writable: "set_text t sh = Inl e \<longleftrightarrow> e = ValueError \<and> \<not> writable t"
  by (auto simp: set_text_def writable_def)

lemma writable_truncated_title: "writable t \<Longrightarrow> writable (truncated_title t)"
  by (auto simp: truncated_title_def writable_def list_all_iff xml_char_def str_def
        dest: in_set_takeD)

section \<open>Writing the title and the content\<close>

lemma map_update_same:
  "i < length xs \<Longrightarrow> f y = f (xs ! i) \<Longrightarrow> map f (xs[i := y]) = map f xs"
  by (simp add: map_update list_update_same_conv)

lemma write_title_Inr:
  assumes "write_title t tp sl = Inr sl1"
  shows "(tp = None \<and> sl1 = sl) \<or>
         (\<exists>i sh. tp = Some i \<and> set_text (truncated_title t) (shapes sl ! i) = Inr sh \<and>
            sl1 = sl\<lparr>shapes := (shapes sl)[i := sh]\<rparr>)"
  using assms by (auto simp: write_title_def split: option.splits sum.splits)

lemma write_content_Inr:
  assumes "write_content c cp sl = Inr sl2"
  shows "(cp = None \<and> sl2 = sl) \<or>
         (\<exists>j sh. cp = Some j \<and> fill_content c (shapes sl ! j) = Inr sh \<and>
            sl2 = sl\<lparr>shapes := (shapes sl)[j := sh]\<rparr>)"
  using assms by (auto simp: write_content_def split: option.splits sum.splits)

lemma populate_slide_Inr:
  assumes f: "find_placeholders (shapes sl) = (tp, cp)"
    and p: "populate_slide title content sl = Inr sl'"
  shows "map placeholder_format (shapes sl') = map placeholder_format (shapes sl)"
    and "tp = Some i \<Longrightarrow> get_text (shapes sl' ! i) = escape_ctrl_chars (truncated_title title)"
    and "cp = Some j \<Longrightarrow> fill_content content (shapes sl ! j) = Inr (shapes sl' ! j)"
proof -
  have t: "tp = Some i \<Longrightarrow> i < length (shapes sl) \<and> placeholder_format (shapes sl ! i) = Some 0"
    for i using find_placeholders_title [of "shapes sl" i] f by simp
  have c: "cp = Some j \<Longrightarrow> j < length (shapes sl) \<and>
         (\<exists>idx. placeholder_format (shapes sl ! j) = Some idx \<and> idx \<noteq> 0)"
    for j using find_placeholders_content [of "shapes sl" j] f by simp
  have ne: "tp = Some i \<Longrightarrow> cp = Some j \<Longrightarrow> i \<noteq> j" for i j
    using t [of i] c [of j] by auto
  from p obtain sl1 where w1: "write_title title tp sl = Inr sl1"
    and w2: "write_content content cp sl1 = Inr sl'"
    by (auto simp: populate_slide_def f split: sum.splits)
  note a = write_title_Inr [OF w1]
  note b = write_content_Inr [OF w2]
  have l1: "length (shapes sl1) = length (shapes sl)"
    using a by auto
  have pf1: "map placeholder_format (shapes sl1) = map placeholder_format (shapes sl)"
    using a t by (auto simp: map_update_same placeholder_format_set_text)
  have other: "cp = Some j \<Longrightarrow> shapes sl1 ! j = shapes sl ! j" for j
    using a ne [of _ j] by auto
  show "map placeholder_format (shapes sl') = map placeholder_format (shapes sl)"
  proof -
    have "map placeholder_format (shapes sl') = map placeholder_format (shapes sl1)"
      using b c l1 by (auto simp: map_update_same placeholder_format_fill_content)
    with pf1 show ?thesis by simp
  qed
  show "tp = Some i \<Longrightarrow> get_text (shapes sl' ! i) = escape_ctrl_chars (truncated_title title)"
  proof -
    assume ti: "tp = Some i"
    with a obtain sh where s: "set_text (truncated_title title) (shapes sl ! i) = Inr sh"
      and e: "sl1 = sl\<lparr>shapes := (shapes sl)[i := sh]\<rparr>" by auto
    have "shapes sl1 ! i = sh" using e t [OF ti] by simp
    moreover have "shapes sl' ! i = shapes sl1 ! i"
      using b ne [OF ti] by auto
    ultimately show ?thesis using get_set_text [OF s] by simp
  qed
  show "cp = Some j \<Longrightarrow> fill_content content (shapes sl ! j) = Inr (shapes sl' ! j)"
  proof -
    assume cj: "cp = Some j"
    with b obtain sh where s: "fill_content content (shapes sl1 ! j) = Inr sh"
      and e: "sl' = sl1\<lparr>shapes := (shapes sl1)[j := sh]\<rparr>" by auto
    have "shapes sl' ! j = sh" using e c [OF cj] l1 by simp
    with s other [OF cj] show ?thesis by simp
  qed
qed

lemma duplicated_placeholder_fresh:
  assumes "j < length (shapes (duplicated_slide b))"
    and "placeholder_format (shapes (duplicated_slide b) ! j) = Some idx"
  shows "shapes (duplicated_slide b) ! j = clone_placeholder idx"
proof -
  let ?base = "slides (prs b) ! base_slide b"
  let ?idxs = "cloneable_placeholders (slide_layout ?base)"
  let ?plain = "filter (\<lambda>s. shape_type s \<noteq> GROUP \<and> \<not> is_placeholder s) (shapes ?base)"
  have "map deepcopy ?plain = ?plain"
    by (simp add: deepcopy_def map_idI)
  then have sh: "shapes (duplicated_slide b) = map clone_placeholder ?idxs @ ?plain"
    by (simp add: duplicated_slide_eq)
  show ?thesis
  proof (cases "j < length ?idxs")
    case True
    with assms(2) show ?thesis
      by (simp add: sh nth_append clone_placeholder_def)
  next
    case False
    with assms(1) have "j - length ?idxs < length ?plain" by (simp add: sh)
    then have "?plain ! (j - length ?idxs) \<in> set ?plain" by (rule nth_mem)
    then have "placeholder_format (?plain ! (j - length ?idxs)) = None"
      by (simp add: is_placeholder_def)
    with False assms(2) show ?thesis
      by (simp add: sh nth_append)
  qed
qed

lemma populate_duplicated_ok:
  assumes "writable title" and "writable content"
  shows "\<exists>sl. populate_slide title content (duplicated_slide b) = Inr sl"
proof -
  let ?D = "duplicated_slide b"
  obtain tp cp where f: "find_placeholders (shapes ?D) = (tp, cp)"
    by (cases "find_placeholders (shapes ?D)")
  have t: "tp = Some i \<Longrightarrow> i < length (shapes ?D) \<and> placeholder_format (shapes ?D ! i) = Some 0"
    for i using find_placeholders_title [of "shapes ?D" i] f by simp
  have c: "cp = Some j \<Longrightarrow> j < length (shapes ?D) \<and>
         (\<exists>idx. placeholder_format (shapes ?D ! j) = Some idx \<and> idx \<noteq> 0)"
    for j using find_placeholders_content [of "shapes ?D" j] f by simp
  have st: "\<exists>sh. set_text (truncated_title title) x = Inr sh" for x
    using writable_truncated_title [OF assms(1)] by (simp add: set_text_def writable_def)
  have "\<exists>sl1. write_title title tp ?D = Inr sl1"
  proof (cases tp)
    case None
    then show ?thesis by (simp add: write_title_def)
  next
    case (Some i)
    from st [of "shapes ?D ! i"] obtain sh
      where "set_text (truncated_title title) (shapes ?D ! i) = Inr sh" by blast
    then show ?thesis by (simp add: write_title_def Some)
  qed
  then obtain sl1 where w1: "write_title title tp ?D = Inr sl1" by blast
  note a = write_title_Inr [OF w1]
  have "\<exists>sl. write_content content cp sl1 = Inr sl"
  proof (cases cp)
    case None
    then show ?thesis by (simp add: write_content_def)
  next
    case cj: (Some j)
    from c [OF cj] obtain idx where j: "j < length (shapes ?D)"
      and pf: "placeholder_format (shapes ?D ! j) = Some idx" "idx \<noteq> 0" by auto
    have "shapes sl1 ! j = shapes ?D ! j"
    proof (cases tp)
      case None
      with a show ?thesis by auto
    next
      case (Some i)
      with t [of i] pf have "i \<noteq> j" by auto
      with a Some show ?thesis by auto
    qed
    then have "shapes sl1 ! j = clone_placeholder idx"
      using duplicated_placeholder_fresh [OF j pf(1)] by simp
    then have "text_frame (shapes sl1 ! j) = TextFrame empty_paragraph []"
      by (simp add: clone_placeholder_def)
    from fill_content_fresh [OF this, of content] writable_content_lines [OF assms(2)]
    show ?thesis by (simp add: write_content_def cj)
  qed
  with w1 show ?thesis by (simp add: populate_slide_def f)
qed

section \<open>Adding one slide\<close>

lemma add_content_slide_cases:
  "add_content_slide title content b =
     (case populate_slide title content (duplicated_slide b) of
        Inl e \<Rightarrow>
          Inl (e, stdout (snd (duplicate_base_slide
                 (print (str ''[CONTENT] Adding slide: '' @ title) b))))
      | Inr sl \<Rightarrow>
          Inr (print
                 (str ''[CONTENT] Slide '' @ [39] @ title @ [39] @ str '' added successfully'')
                 ((snd (duplicate_base_slide
                    (print (str ''[CONTENT] Adding slide: '' @ title) b)))
                  \<lparr>prs := \<lparr>slides = slides (prs b) @ [sl]\<rparr>\<rparr>)))"
proof -
  let ?b1 = "print (str ''[CONTENT] Adding slide: '' @ title) b"
  have d: "duplicate_base_slide ?b1 = (length (slides (prs b)), snd (duplicate_base_slide ?b1))"
    by (simp add: duplicate_base_slide_eq)
  have p: "slides (prs (snd (duplicate_base_slide ?b1))) = slides (prs b) @ [duplicated_slide b]"
    by (simp add: duplicate_base_slide_prs)
  show ?thesis
    unfolding add_content_slide_def Let_def
    by (subst d) (simp add: p split: sum.splits)
qed

lemma added_slide_eq:
  "added_slide b title content =
     (case populate_slide title content (duplicated_slide b) of
        Inl e \<Rightarrow> None
      | Inr sl \<Rightarrow> Some sl)"
  by (simp add: added_slide_def add_content_slide_cases split: sum.splits)

lemma added_slide_cong:
  "duplicated_slide b' = duplicated_slide b \<Longrightarrow> added_slide b' = added_slide b"
  by (simp add: fun_eq_iff added_slide_eq)

lemma added_slide_ok:
  "writable title \<Longrightarrow> writable content \<Longrightarrow> \<exists>sl. added_slide b title content = Some sl"
  using populate_duplicated_ok [of title content b] by (auto simp: added_slide_eq)

lemma add_content_slide_Some:
  "added_slide b title content = Some sl \<Longrightarrow> \<exists>b'. add_content_slide title content b = Inr b'"
  by (auto simp: added_slide_def split: sum.splits)

lemma add_content_slide_None:
  "added_slide b title content = None \<Longrightarrow>
     raised (add_content_slide title content b) \<noteq> None"
  by (auto simp: added_slide_def raised_def split: sum.splits)

lemma add_content_slide_Inr_eq:
  assumes "add_content_slide t c b = Inr b'"
  shows "\<exists>sl. populate_slide t c (duplicated_slide b) = Inr sl \<and>
           b' = print (str ''[CONTENT] Slide '' @ [39] @ t @ [39] @ str '' added successfully'')
                  ((snd (duplicate_base_slide (print (str ''[CONTENT] Adding slide: '' @ t) b)))
                   \<lparr>prs := \<lparr>slides = slides (prs b) @ [sl]\<rparr>\<rparr>)"
proof (cases "populate_slide t c (duplicated_slide b)")
  case (Inl e)
  with assms show ?thesis by (simp add: add_content_slide_cases)
next
  case (Inr sl)
  with assms show ?thesis by (simp add: add_content_slide_cases)
qed

lemma extends_add_content_slide:
  assumes "add_content_slide t c b = Inr b'"
  shows "extends b b' []"
proof -
  from add_content_slide_Inr_eq [OF assms] obtain sl where
    "b' = print (str ''[CONTENT] Slide '' @ [39] @ t @ [39] @ str '' added successfully'')
                  ((snd (duplicate_base_slide (print (str ''[CONTENT] Adding slide: '' @ t) b)))
                   \<lparr>prs := \<lparr>slides = slides (prs b) @ [sl]\<rparr>\<rparr>)" by blast
  then have "stdout b' = stdout b @
      [str ''[CONTENT] Adding slide: '' @ t, str ''[SLIDE] Duplicating base slide''] @
      replicate (length (filter (\<lambda>s. shape_type s = GROUP)
         (shapes (slides (prs b) ! base_slide b)))) (str ''[WARN] Skipping grouped shape'') @
      [str ''[SLIDE] Slide duplicated'',
       str ''[CONTENT] Slide '' @ [39] @ t @ [39] @ str '' added successfully'']"
    by (simp add: duplicate_base_slide_eq)
  then show ?thesis
    unfolding extends_def by (intro exI conjI, assumption) simp
qed

lemma add_content_slide_Inr:
  assumes "add_content_slide t c b = Inr b'"
  shows "map Some (slides (prs b')) = map Some (slides (prs b)) @ [added_slide b t c]"
    and "base_slide b' = base_slide b"
proof -
  from add_content_slide_Inr_eq [OF assms] obtain sl where
    p: "populate_slide t c (duplicated_slide b) = Inr sl" and
    e: "b' = print (str ''[CONTENT] Slide '' @ [39] @ t @ [39] @ str '' added successfully'')
                  ((snd (duplicate_base_slide (print (str ''[CONTENT] Adding slide: '' @ t) b)))
                   \<lparr>prs := \<lparr>slides = slides (prs b) @ [sl]\<rparr>\<rparr>)" by blast
  show "map Some (slides (prs b')) = map Some (slides (prs b)) @ [added_slide b t c]"
    by (simp add: e added_slide_eq p)
  show "base_slide b' = base_slide b"
    by (simp add: e duplicate_base_slide_eq)
qed

lemma progress_refl: "valid_builder b \<Longrightarrow> progress b b [] []"
  by (simp add: progress_def extends_refl)

lemma progress_trans:
  assumes "progress b b' n e" and "progress b' b'' n' e'"
  shows "progress b b'' (n @ n') (e @ e')"
proof -
  from assms have "extends b b' e" "extends b' b'' e'"
    by (simp_all add: progress_def)
  then have "extends b b'' (e @ e')" by (rule extends_trans)
  with assms show ?thesis by (simp add: progress_def)
qed

lemma progress_print: "valid_builder b \<Longrightarrow> progress b (print l b) [] (error_lines [l])"
  using extends_print [of b l] by (simp add: progress_def)

lemma progress_added:
  assumes "progress b b' n e"
  shows "added_slide b' = added_slide b"
proof (rule added_slide_cong)
  from assms show "duplicated_slide b' = duplicated_slide b"
    by (simp add: progress_def)
qed

lemma progress_add:
  assumes "valid_builder b" and "add_content_slide t c b = Inr b'"
  shows "progress b b' [added_slide b t c] []"
proof -
  note s = add_content_slide_Inr [OF assms(2)]
  have "length (map Some (slides (prs b'))) =
          length (map Some (slides (prs b)) @ [added_slide b t c])"
    by (simp only: s(1))
  then have l: "length (slides (prs b')) = Suc (length (slides (prs b)))"
    by simp
  have "take (length (slides (prs b))) (map Some (slides (prs b'))) =
          take (length (slides (prs b))) (map Some (slides (prs b)) @ [added_slide b t c])"
    by (simp only: s(1))
  then have "map Some (take (length (slides (prs b))) (slides (prs b'))) =
      map Some (slides (prs b))"
    by (simp add: take_map)
  then have tk: "take (length (slides (prs b))) (slides (prs b')) = slides (prs b)"
    by (rule map_injective) simp
  have v: "valid_builder b'"
    using assms(1) s(2) l by (simp add: valid_builder_def)
  have "take (length (slides (prs b))) (slides (prs b')) ! base_slide b =
          slides (prs b') ! base_slide b"
    using assms(1) by (simp add: valid_builder_def)
  then have "slides (prs b') ! base_slide b' = slides (prs b) ! base_slide b"
    by (simp add: tk s(2))
  then have "duplicated_slide b' = duplicated_slide b"
    by (simp add: duplicated_slide_eq s(2))
  with v s(1) extends_add_content_slide [OF assms(2)] show ?thesis
    by (simp add: progress_def)
qed

section \<open>The slide that add_content_slide leaves\<close>

lemma added_slide_populate:
  "added_slide b t c = Some s \<longleftrightarrow> populate_slide t c (duplicated_slide b) = Inr s"
  by (simp add: added_slide_eq split: sum.splits)

lemma find_placeholders_added:
  assumes "added_slide b t c = Some s"
  shows "find_placeholders (shapes s) = find_placeholders (shapes (duplicated_slide b))"
proof -
  obtain tp cp where f: "find_placeholders (shapes (duplicated_slide b)) = (tp, cp)"
    by (cases "find_placeholders (shapes (duplicated_slide b))")
  from assms have p: "populate_slide t c (duplicated_slide b) = Inr s"
    by (simp add: added_slide_populate)
  from populate_slide_Inr(1) [OF f p] show ?thesis by (rule find_placeholders_cong)
qed

lemma find_placeholders_clones:
  "fst (find_placeholders (map clone_placeholder idxs)) \<noteq> None \<longleftrightarrow> 0 \<in> set idxs"
  "snd (find_placeholders (map clone_placeholder idxs)) \<noteq> None \<longleftrightarrow> (\<exists>idx\<in>set idxs. idx \<noteq> 0)"
proof -
  have "fst (find_placeholders (map clone_placeholder idxs)) \<noteq> None \<longleftrightarrow>
      (\<exists>s\<in>set (map clone_placeholder idxs). placeholder_format s = Some 0)"
    by (rule find_placeholders_title_ex)
  also have "\<dots> \<longleftrightarrow> 0 \<in> set idxs"
    by (auto simp: clone_placeholder_def)
  finally show "fst (find_placeholders (map clone_placeholder idxs)) \<noteq> None \<longleftrightarrow> 0 \<in> set idxs" .
  have "snd (find_placeholders (map clone_placeholder idxs)) \<noteq> None \<longleftrightarrow>
      (\<exists>s\<in>set (map clone_placeholder idxs). \<exists>idx. placeholder_format s = Some idx \<and> idx \<noteq> 0)"
    by (rule find_placeholders_content_ex)
  also have "\<dots> \<longleftrightarrow> (\<exists>idx\<in>set idxs. idx \<noteq> 0)"
    by (auto simp: clone_placeholder_def)
  finally show "snd (find_placeholders (map clone_placeholder idxs)) \<noteq> None \<longleftrightarrow>
      (\<exists>idx\<in>set idxs. idx \<noteq> 0)" .
qed

lemma find_placeholders_duplicated:
  "fst (find_placeholders (shapes (duplicated_slide b))) \<noteq> None \<longleftrightarrow> has_title_placeholder b"
  "snd (find_placeholders (shapes (duplicated_slide b))) \<noteq> None \<longleftrightarrow> has_body_placeholder b"
proof -
  let ?base = "slides (prs b) ! base_slide b"
  let ?idxs = "cloneable_placeholders (slide_layout ?base)"
  let ?plain = "filter (\<lambda>s. shape_type s \<noteq> GROUP \<and> \<not> is_placeholder s) (shapes ?base)"
  have "\<forall>s\<in>set (map deepcopy ?plain). placeholder_format s = None"
    by (simp add: deepcopy_def is_placeholder_def)
  then have "find_placeholders (map clone_placeholder ?idxs @ map deepcopy ?plain) =
      find_placeholders (map clone_placeholder ?idxs)"
    by (rule find_placeholders_append_plain)
  then have e: "find_placeholders (shapes (duplicated_slide b)) =
      find_placeholders (map clone_placeholder ?idxs)"
    by (simp add: duplicated_slide_eq)
  show "fst (find_placeholders (shapes (duplicated_slide b))) \<noteq> None \<longleftrightarrow> has_title_placeholder b"
    unfolding e has_title_placeholder_def by (rule find_placeholders_clones)
  show "snd (find_placeholders (shapes (duplicated_slide b))) \<noteq> None \<longleftrightarrow> has_body_placeholder b"
    unfolding e has_body_placeholder_def by (rule find_placeholders_clones)
qed

lemma title_text_added:
  assumes "added_slide b t c = Some s"
  shows "title_text s =
     (if has_title_placeholder b then Some (escape_ctrl_chars (truncated_title t)) else None)"
proof -
  obtain tp cp where f: "find_placeholders (shapes (duplicated_slide b)) = (tp, cp)"
    by (cases "find_placeholders (shapes (duplicated_slide b))")
  from assms have p: "populate_slide t c (duplicated_slide b) = Inr s"
    by (simp add: added_slide_populate)
  have g: "find_placeholders (shapes s) = (tp, cp)"
    using find_placeholders_added [OF assms] f by simp
  have h: "has_title_placeholder b \<longleftrightarrow> tp \<noteq> None"
    using find_placeholders_duplicated(1) [of b] f by simp
  show ?thesis
  proof (cases tp)
    case None
    then show ?thesis by (simp add: title_text_def g h)
  next
    case (Some i)
    from populate_slide_Inr(2) [OF f p Some]
    show ?thesis by (simp add: title_text_def g h Some)
  qed
qed

lemma fill_content_clone:
  "fill_content c (clone_placeholder idx) =
     (if list_all writable (content_lines c)
      then Inr ((clone_placeholder idx)\<lparr>text_frame :=
                  TextFrame empty_paragraph (map body_paragraph (content_lines c))\<rparr>)
      else Inl ValueError)"
  by (rule fill_content_fresh) (simp add: clone_placeholder_def)

lemma content_frame_added:
  assumes "added_slide b t c = Some s"
  shows "content_frame s =
     (if has_body_placeholder b
      then Some (TextFrame empty_paragraph (map body_paragraph (content_lines c))) else None)"
    and "has_body_placeholder b \<Longrightarrow> list_all writable (content_lines c)"
proof -
  obtain tp cp where f: "find_placeholders (shapes (duplicated_slide b)) = (tp, cp)"
    by (cases "find_placeholders (shapes (duplicated_slide b))")
  from assms have p: "populate_slide t c (duplicated_slide b) = Inr s"
    by (simp add: added_slide_populate)
  have g: "find_placeholders (shapes s) = (tp, cp)"
    using find_placeholders_added [OF assms] f by simp
  have h: "has_body_placeholder b \<longleftrightarrow> cp \<noteq> None"
    using find_placeholders_duplicated(2) [of b] f by simp
  have k: "cp = Some j \<Longrightarrow> list_all writable (content_lines c) \<and>
      text_frame (shapes s ! j) = TextFrame empty_paragraph (map body_paragraph (content_lines c))"
    for j
  proof -
    assume cj: "cp = Some j"
    from find_placeholders_content [of "shapes (duplicated_slide b)" j] f cj
    obtain idx where j: "j < length (shapes (duplicated_slide b))"
      and pf: "placeholder_format (shapes (duplicated_slide b) ! j) = Some idx" by auto
    from populate_slide_Inr(3) [OF f p cj] duplicated_placeholder_fresh [OF j pf]
    have "fill_content c (clone_placeholder idx) = Inr (shapes s ! j)" by simp
    then have "list_all writable (content_lines c)" and
      "shapes s ! j = (clone_placeholder idx)\<lparr>text_frame :=
         TextFrame empty_paragraph (map body_paragraph (content_lines c))\<rparr>"
      by (auto simp: fill_content_clone split: if_splits)
    then show ?thesis by simp
  qed
  show "content_frame s =
     (if has_body_placeholder b
      then Some (TextFrame empty_paragraph (map body_paragraph (content_lines c))) else None)"
  proof (cases cp)
    case None
    then show ?thesis by (simp add: content_frame_def g h)
  next
    case (Some j)
    with k [OF Some] show ?thesis by (simp add: content_frame_def g h)
  qed
  show "has_body_placeholder b \<Longrightarrow> list_all writable (content_lines c)"
    using h k by auto
qed

lemma title_writable_added:
  assumes "added_slide b t c = Some s" and "has_title_placeholder b"
  shows "writable (truncated_title t)"
proof -
  obtain tp cp where f: "find_placeholders (shapes (duplicated_slide b)) = (tp, cp)"
    by (cases "find_placeholders (shapes (duplicated_slide b))")
  from assms have p: "populate_slide t c (duplicated_slide b) = Inr s"
    by (simp add: added_slide_populate)
  from assms(2) find_placeholders_duplicated(1) [of b] f obtain i where i: "tp = Some i"
    by auto
  from p obtain sl1 where "write_title t tp (duplicated_slide b) = Inr sl1"
    by (auto simp: populate_slide_def f split: sum.splits)
  from write_title_Inr [OF this] i obtain sh where
    "set_text (truncated_title t) (shapes (duplicated_slide b) ! i) = Inr sh" by auto
  then show ?thesis
    by (auto simp: set_text_def writable_def split: if_splits)
qed

lemma fill_content_Inl: "fill_content c sh = Inl e \<Longrightarrow> e = ValueError"
  by (cases "text_frame sh")
     (auto simp: fill_content_def add_lines_eq split: sum.splits if_splits)

lemma populate_slide_Inl: "populate_slide t c sl = Inl e \<Longrightarrow> e = ValueError"
  by (auto simp: populate_slide_def write_title_def write_content_def set_text_writable
        split: prod.splits sum.splits option.splits dest: fill_content_Inl)

lemma add_content_slide_Inl: "add_content_slide t c b = Inl x \<Longrightarrow> fst x = ValueError"
  by (auto simp: add_content_slide_cases split: sum.splits dest: populate_slide_Inl)

lemma raised_add_content_slide:
  "raised (add_content_slide t c b) =
     (if added_slide b t c = None then Some ValueError else None)"
  by (auto simp: raised_def added_slide_def split: sum.splits dest: add_content_slide_Inl)

lemma length_escape_ctrl_chars: "length (escape_ctrl_chars s) \<le> 7 * length s"
  by (induction s) (auto simp: escape_char_def str_def)

lemma length_truncated_title: "length (truncated_title t) \<le> 200"
  by (simp add: truncated_title_def str_def)

section \<open>The build\<close>

lemma try_add_cases:
  "try_add d b =
     (case slide_args d of
        None \<Rightarrow> Inr (print (missing_key_line d) b)
      | Some (t, c) \<Rightarrow> add_content_slide t c b)"
  by (simp add: try_add_def getitem_def slide_args_def missing_key_line_def
        split: option.splits)

lemma progress_try_add:
  assumes "valid_builder b" and "try_add d b = Inr b'"
  shows "progress b b'
           (map (\<lambda>(t, c). added_slide b t c) (List.map_filter slide_args [d]))
           (map missing_key_line (filter (\<lambda>d. slide_args d = None) [d]))"
proof (cases "slide_args d")
  case None
  with assms(2) have "b' = print (missing_key_line d) b"
    by (simp add: try_add_cases)
  with progress_print [OF assms(1), of "missing_key_line d"] None
  show ?thesis by (simp add: map_filter_simps error_lines_def)
next
  case (Some a)
  obtain t c where a: "a = (t, c)" by (cases a)
  from assms(2) Some a have "add_content_slide t c b = Inr b'"
    by (simp add: try_add_cases)
  from progress_add [OF assms(1) this] Some a
  show ?thesis by (simp add: map_filter_simps)
qed

lemma progress_valid: "progress b b' n e \<Longrightarrow> valid_builder b'"
  by (simp add: progress_def)

lemma progress_for_each_try_add:
  assumes "valid_builder b" and "for_each try_add ds b = Inr b'"
  shows "progress b b'
           (map (\<lambda>(t, c). added_slide b t c) (List.map_filter slide_args ds))
           (map missing_key_line (filter (\<lambda>d. slide_args d = None) ds))"
  using assms
proof (induction ds arbitrary: b)
  case Nil
  then show ?case by (simp add: map_filter_simps progress_refl)
next
  case (Cons d ds)
  from Cons.prems(2) obtain b1 where t: "try_add d b = Inr b1"
    and r: "for_each try_add ds b1 = Inr b'"
    by (auto split: sum.splits)
  note p1 = progress_try_add [OF Cons.prems(1) t]
  note p2 = Cons.IH [OF progress_valid [OF p1] r]
  have a: "added_slide b1 = added_slide b" by (rule progress_added [OF p1])
  have "progress b b'
     (map (\<lambda>(t, c). added_slide b t c) (List.map_filter slide_args [d]) @
      map (\<lambda>(t, c). added_slide b t c) (List.map_filter slide_args ds))
     (map missing_key_line (filter (\<lambda>d. slide_args d = None) [d]) @
      map missing_key_line (filter (\<lambda>d. slide_args d = None) ds))"
    using progress_trans [OF p1 p2] by (simp only: a)
  then show ?case
    by (cases "slide_args d") (simp_all add: map_filter_simps)
qed

lemma progress_build_section:
  assumes "valid_builder b" and "build_section (name, ds) b = Inr b'"
  shows "progress b b'
           (added_slide b name [] #
            map (\<lambda>(t, c). added_slide b t c) (List.map_filter slide_args ds))
           (map missing_key_line (filter (\<lambda>d. slide_args d = None) ds))"
proof -
  let ?b0 = "print (str ''[SECTION] Processing: '' @ name) b"
  from assms(2) obtain b1 where h: "add_content_slide name [] ?b0 = Inr b1"
    and r: "for_each try_add ds b1 = Inr b'"
    by (auto simp: build_section_def split: sum.splits)
  have p0: "progress b ?b0 [] []"
    using progress_print [OF assms(1), of "str ''[SECTION] Processing: '' @ name"]
    by (simp add: error_lines_def is_error_def str_def)
  have v0: "valid_builder ?b0" using assms(1) by simp
  note p1 = progress_add [OF v0 h]
  note p2 = progress_for_each_try_add [OF progress_valid [OF p1] r]
  note p01 = progress_trans [OF p0 p1]
  have a: "added_slide b1 = added_slide b" by (rule progress_added [OF p01])
  have a0: "added_slide ?b0 = added_slide b" by (rule progress_added [OF p0])
  from progress_trans [OF p01 p2] show ?thesis
    by (simp add: a a0)
qed

lemma progress_for_each_build_section:
  assumes "valid_builder b" and "for_each build_section cd b = Inr b'"
  shows "progress b b'
           (concat (map (\<lambda>(name, ds). added_slide b name [] #
              map (\<lambda>(t, c). added_slide b t c) (List.map_filter slide_args ds)) cd))
           (concat (map (\<lambda>(name, ds).
              map missing_key_line (filter (\<lambda>d. slide_args d = None) ds)) cd))"
  using assms
proof (induction cd arbitrary: b)
  case Nil
  then show ?case by (simp add: progress_refl)
next
  case (Cons x cd)
  obtain name ds where x: "x = (name, ds)" by (cases x)
  from Cons.prems(2) obtain b1 where t: "build_section (name, ds) b = Inr b1"
    and r: "for_each build_section cd b1 = Inr b'"
    by (auto simp: x split: sum.splits)
  note p1 = progress_build_section [OF Cons.prems(1) t]
  note p2 = Cons.IH [OF progress_valid [OF p1] r]
  have a: "added_slide b1 = added_slide b" by (rule progress_added [OF p1])
  from progress_trans [OF p1 p2] show ?case
    by (simp add: a x)
qed

lemma progress_build_from_content:
  assumes "valid_builder b" and "build_from_content cd b = Inr b'"
  shows "progress b b'
           (concat (map (\<lambda>(name, ds). added_slide b name [] #
              map (\<lambda>(t, c). added_slide b t c) (List.map_filter slide_args ds)) cd))
           (concat (map (\<lambda>(name, ds).
              map missing_key_line (filter (\<lambda>d. slide_args d = None) ds)) cd))"
    and "last (stdout b') = str ''[BUILD] Presentation build complete''"
proof -
  let ?b0 = "print (str ''[BUILD] Building presentation from content'') b"
  from assms(2) obtain b1 where r: "for_each build_section cd ?b0 = Inr b1"
    and e: "b' = print (str ''[BUILD] Presentation build complete'') b1"
    by (auto simp: build_from_content_def split: sum.splits)
  show "last (stdout b') = str ''[BUILD] Presentation build complete''"
    by (simp add: e)
  have p0: "progress b ?b0 [] []"
    using progress_print [OF assms(1), of "str ''[BUILD] Building presentation from content''"]
    by (simp add: error_lines_def is_error_def str_def)
  have v0: "valid_builder ?b0" using assms(1) by simp
  note p1 = progress_for_each_build_section [OF v0 r]
  have a0: "added_slide ?b0 = added_slide b" by (rule progress_added [OF p0])
  have p2: "progress b1 b' [] []"
    using progress_print [OF progress_valid [OF p1], of "str ''[BUILD] Presentation build complete''"]
    by (simp add: e error_lines_def is_error_def str_def)
  from progress_trans [OF progress_trans [OF p0 p1] p2]
  show "progress b b'
           (concat (map (\<lambda>(name, ds). added_slide b name [] #
              map (\<lambda>(t, c). added_slide b t c) (List.map_filter slide_args ds)) cd))
           (concat (map (\<lambda>(name, ds).
              map missing_key_line (filter (\<lambda>d. slide_args d = None) ds)) cd))"
    by (simp add: a0)
qed

subsection \<open>When the build returns\<close>

lemma try_add_ok:
  assumes "writable_descriptor d"
  shows "\<exists>b'. try_add d b = Inr b'"
proof (cases "slide_args d")
  case None
  then show ?thesis by (simp add: try_add_cases)
next
  case (Some a)
  obtain t c where a: "a = (t, c)" by (cases a)
  from Some a assms have "writable t" "writable c"
    by (auto simp: slide_args_def writable_descriptor_def split: option.splits)
  from added_slide_ok [OF this, of b] obtain sl where "added_slide b t c = Some sl" by blast
  from add_content_slide_Some [OF this] Some a show ?thesis
    by (simp add: try_add_cases)
qed

lemma for_each_ok:
  assumes "\<And>x b. x \<in> set xs \<Longrightarrow> \<exists>b'. body x b = Inr b'"
  shows "\<exists>b'. for_each body xs b = Inr b'"
  using assms
proof (induction xs arbitrary: b)
  case Nil
  then show ?case by simp
next
  case (Cons x xs)
  from Cons.prems [of x b] obtain b1 where "body x b = Inr b1" by auto
  moreover from Cons.IH [of b1] Cons.prems obtain b' where "for_each body xs b1 = Inr b'"
    by auto
  ultimately show ?case by simp
qed

lemma build_section_ok:
  assumes "writable name" and "list_all writable_descriptor ds"
  shows "\<exists>b'. build_section (name, ds) b = Inr b'"
proof -
  let ?b0 = "print (str ''[SECTION] Processing: '' @ name) b"
  have "writable []" by (simp add: writable_def)
  from added_slide_ok [OF assms(1) this, of ?b0] obtain sl
    where "added_slide ?b0 name [] = Some sl" by blast
  from add_content_slide_Some [OF this] obtain b1
    where h: "add_content_slide name [] ?b0 = Inr b1" by blast
  have "\<exists>b'. for_each try_add ds b1 = Inr b'"
    using assms(2) by (intro for_each_ok try_add_ok) (simp add: list_all_iff)
  with h show ?thesis by (simp add: build_section_def)
qed

lemma build_from_content_ok:
  assumes "writable_outline cd"
  shows "\<exists>b'. build_from_content cd b = Inr b'"
proof -
  have "\<exists>b'. for_each build_section cd
          (print (str ''[BUILD] Building presentation from content'') b) = Inr b'"
  proof (rule for_each_ok)
    fix x b0 assume "x \<in> set cd"
    with assms obtain name ds where "x = (name, ds)" "writable name"
      "list_all writable_descriptor ds"
      by (cases x) (auto simp: writable_outline_def list_all_iff)
    with build_section_ok [of name ds b0] show "\<exists>b'. build_section x b0 = Inr b'"
      by simp
  qed
  then show ?thesis by (auto simp: build_from_content_def)
qed

subsection \<open>When the build raises\<close>

lemma try_add_Inl: "try_add d b = Inl x \<Longrightarrow> fst x = ValueError"
  by (auto simp: try_add_cases split: option.splits dest: add_content_slide_Inl)

lemma for_each_Inl:
  assumes "\<And>x b y. body x b = Inl y \<Longrightarrow> fst y = ValueError"
    and "for_each body xs b = Inl y"
  shows "fst y = ValueError"
  using assms(2)
proof (induction xs arbitrary: b)
  case Nil
  then show ?case by simp
next
  case (Cons x xs)
  show ?case
  proof (cases "body x b")
    case (Inl e)
    with Cons.prems have "y = e" by simp
    with assms(1) [OF Inl] show ?thesis by simp
  next
    case (Inr b1)
    with Cons.prems have "for_each body xs b1 = Inl y" by simp
    then show ?thesis by (rule Cons.IH)
  qed
qed

lemma build_section_Inl: "build_section x b = Inl y \<Longrightarrow> fst y = ValueError"
proof -
  assume a: "build_section x b = Inl y"
  obtain name ds where x: "x = (name, ds)" by (cases x)
  show ?thesis
  proof (cases "add_content_slide name [] (print (str ''[SECTION] Processing: '' @ name) b)")
    case (Inl e)
    with a x have "y = e" by (simp add: build_section_def)
    with add_content_slide_Inl [OF Inl] show ?thesis by simp
  next
    case (Inr b1)
    with a x have "for_each try_add ds b1 = Inl y" by (simp add: build_section_def)
    then show ?thesis by (rule for_each_Inl [rotated]) (rule try_add_Inl)
  qed
qed

lemma build_from_content_Inl: "build_from_content cd b = Inl y \<Longrightarrow> fst y = ValueError"
proof -
  assume "build_from_content cd b = Inl y"
  then have "for_each build_section cd
          (print (str ''[BUILD] Building presentation from content'') b) = Inl y"
    by (simp add: build_from_content_def split: sum.splits)
  then show ?thesis by (rule for_each_Inl [rotated]) (rule build_section_Inl)
qed

lemma build_raises:
  assumes "valid_builder b"
    and "None \<in> set (concat (map (\<lambda>(name, ds). added_slide b name [] #
              map (\<lambda>(t, c). added_slide b t c) (List.map_filter slide_args ds)) cd))"
  shows "raised (build_from_content cd b) = Some ValueError"
proof (cases "build_from_content cd b")
  case (Inl y)
  with build_from_content_Inl [OF Inl] show ?thesis by (simp add: raised_def)
next
  case (Inr b')
  from progress_build_from_content(1) [OF assms(1) Inr]
  have "map Some (slides (prs b')) = map Some (slides (prs b)) @
      concat (map (\<lambda>(name, ds). added_slide b name [] #
              map (\<lambda>(t, c). added_slide b t c) (List.map_filter slide_args ds)) cd)"
    by (simp add: progress_def)
  then have "set (concat (map (\<lambda>(name, ds). added_slide b name [] #
              map (\<lambda>(t, c). added_slide b t c) (List.map_filter slide_args ds)) cd))
      \<subseteq> set (map Some (slides (prs b')))"
    by (metis set_append Un_upper2)
  with assms(2) have "None \<in> set (map Some (slides (prs b')))" by blast
  then show ?thesis by auto
qed

section \<open>The example template and outlines\<close>

lemma PresentationBuilder_Inr:
  "PresentationBuilder path (Inr p) out = Inr b \<Longrightarrow>
     valid_builder b \<and> prs b = p \<and> base_slide b = 0"
  by (auto simp: PresentationBuilder_def Let_def valid_builder_def split: if_splits)

lemma example_builder_init:
  "PresentationBuilder (str ''/tmp/x/template.pptx'') (Inr example_template) [] =
     Inr example_builder"
  by (simp add: PresentationBuilder_def example_builder_def example_template_def)

lemma example_builder_valid: "valid_builder example_builder"
  by (simp add: valid_builder_def example_builder_def example_template_def)

lemma map_filter_all_keys:
  "\<forall>d\<in>set ds. d (str ''title'') \<noteq> None \<and> d (str ''content'') \<noteq> None \<Longrightarrow>
     List.map_filter slide_args ds =
       map (\<lambda>d. (the (d (str ''title'')), the (d (str ''content'')))) ds"
  by (induction ds) (auto simp: slide_args_def split: option.splits)

lemma example_slides: "slides (prs example_builder) = [example_base]"
  by (simp add: example_builder_def example_template_def)

lemma example_values:
  "the (example_A (str ''title'')) = str ''A''" "the (example_A (str ''content'')) = str ''x''"
  "the (example_C (str ''title'')) = str ''C''" "the (example_C (str ''content'')) = str ''y''"
  "the (example_D (str ''title'')) = str ''D''" "the (example_D (str ''content'')) = str ''z''"
  by (simp_all add: example_A_def example_C_def example_D_def str_def)

lemma example_args:
  "slide_args example_A = Some (str ''A'', str ''x'')"
  "slide_args example_C = Some (str ''C'', str ''y'')"
  "slide_args example_D = Some (str ''D'', str ''z'')"
  "slide_args example_missing = None"
  by (simp_all add: slide_args_def example_A_def example_C_def example_D_def
        example_missing_def str_def)

lemma example_base_slide:
  "slides (prs example_builder) ! base_slide example_builder = example_base"
  by (simp add: example_builder_def example_template_def)

lemma example_duplicated_shapes:
  "shapes (duplicated_slide example_builder) =
     [clone_placeholder 0, clone_placeholder 1, example_picture, example_text_box]"
  by (simp add: duplicated_slide_eq example_base_slide)
     (simp add: example_base_def example_layout_def example_picture_def example_text_box_def
        example_group_def is_placeholder_def clone_placeholder_def deepcopy_def)


lemma example_has_placeholders:
  "has_title_placeholder example_builder" "has_body_placeholder example_builder"
  by (simp_all add: has_title_placeholder_def has_body_placeholder_def example_base_slide
        example_base_def example_layout_def)

lemma example_writable:
  "writable (str ''A'')" "writable (str ''C'')" "writable (str ''D'')"
  "writable (str ''x'')" "writable (str ''y'')" "writable (str ''z'')"
  "writable (str ''Intro'')" "writable (str ''End'')" "writable (str ''T'')" "writable []"
  by (simp_all add: writable_def xml_char_def str_def)

lemma example_writable_descriptors:
  "writable_descriptor example_A" "writable_descriptor example_C"
  "writable_descriptor example_D" "writable_descriptor example_missing"
  by (simp_all add: writable_descriptor_def example_A_def example_C_def example_D_def
        example_missing_def example_writable) (simp_all add: str_def)

lemma example_writable_outlines:
  "writable_outline example_outline" "writable_outline example_full_outline"
  by (simp_all add: writable_outline_def example_outline_def example_full_outline_def
        example_writable example_writable_descriptors)

section \<open>Skipping a descriptor\<close>

text \<open>
  C10. A descriptor that lacks \<open>title\<close> or \<open>content\<close> is skipped without touching the
  presentation: the subscripts are evaluated before \<open>add_content_slide\<close> is called, so
  the \<open>try\<close> statement raises nothing, the presentation and the base slide reference are
  unchanged, the number of slides grows by zero, and the only effect is the line that
  reports the missing key.
\<close>

theorem skipped_descriptor_atomic:
  assumes "d (str ''title'') = None \<or> d (str ''content'') = None"
  shows "\<exists>b'. try_add d b = Inr b' \<and> prs b' = prs b \<and> base_slide b' = base_slide b \<and>
           length (slides (prs b')) = length (slides (prs b)) + 0 \<and>
           stdout b' = stdout b @ [missing_key_line d]"
proof -
  from assms have "slide_args d = None"
    by (auto simp: slide_args_def split: option.splits)
  then show ?thesis by (simp add: try_add_cases)
qed

theorem skipped_descriptor_atomic_witness:
  "(example_missing (str ''title'') = None \<or> example_missing (str ''content'') = None) \<and>
   (\<exists>b'. try_add example_missing example_builder = Inr b' \<and> prs b' = example_template \<and>
      base_slide b' = 0 \<and> length (slides (prs b')) = 1 \<and>
      stdout b' = stdout example_builder @
        [str ''[ERROR] Missing key in slide data: '' @ [39] @ str ''content'' @ [39]])"
proof -
  have h: "example_missing (str ''title'') = None \<or> example_missing (str ''content'') = None"
    by (simp add: example_missing_def str_def)
  have m: "missing_key_line example_missing =
      str ''[ERROR] Missing key in slide data: '' @ [39] @ str ''content'' @ [39]"
    by (simp add: missing_key_line_def example_missing_def)
  have e: "prs example_builder = example_template" "base_slide example_builder = 0"
    "length (slides example_template) = 1"
    by (simp_all add: example_builder_def example_template_def)
  from skipped_descriptor_atomic [OF h, of example_builder] h show ?thesis
    by (simp add: m e)
qed

section \<open>Duplicating the base slide\<close>

text \<open>
  C8. \<open>duplicate_base_slide\<close> appends one new slide, which has the base slide's layout;
  its shapes are the placeholders that \<open>add_slide\<close> clones from that layout followed by
  deep copies of exactly those shapes of the base slide that are neither grouped shapes
  nor placeholders, in their order. One warning is printed for each grouped shape; a
  placeholder is passed over without a line.
\<close>

theorem duplicate_base_slide_shapes:
  assumes "valid_builder b"
  shows "fst (duplicate_base_slide b) = length (slides (prs b)) \<and>
         slides (prs (snd (duplicate_base_slide b))) = slides (prs b) @ [duplicated_slide b] \<and>
         slide_layout (duplicated_slide b) = slide_layout (slides (prs b) ! base_slide b) \<and>
         shapes (duplicated_slide b) =
           shapes (add_slide (slide_layout (slides (prs b) ! base_slide b))) @
           map deepcopy (filter (\<lambda>sh. shape_type sh \<noteq> GROUP \<and> \<not> is_placeholder sh)
                           (shapes (slides (prs b) ! base_slide b))) \<and>
         stdout (snd (duplicate_base_slide b)) =
           stdout b @ [str ''[SLIDE] Duplicating base slide''] @
           replicate (length (filter (\<lambda>sh. shape_type sh = GROUP)
                                (shapes (slides (prs b) ! base_slide b))))
             (str ''[WARN] Skipping grouped shape'') @
           [str ''[SLIDE] Slide duplicated'']"
  by (simp add: duplicate_base_slide_prs duplicated_slide_eq add_slide_def)
     (simp add: duplicate_base_slide_eq)

theorem duplicate_base_slide_shapes_witness:
  "valid_builder example_builder \<and>
   shapes (duplicated_slide example_builder) =
     [clone_placeholder 0, clone_placeholder 1, example_picture, example_text_box] \<and>
   stdout (snd (duplicate_base_slide example_builder)) =
     stdout example_builder @
     [str ''[SLIDE] Duplicating base slide'', str ''[WARN] Skipping grouped shape'',
      str ''[SLIDE] Slide duplicated'']"
proof -
  note t = duplicate_base_slide_shapes [OF example_builder_valid]
  have b: "slides (prs example_builder) ! base_slide example_builder = example_base"
    by (simp add: example_builder_def example_template_def)
  have f: "filter (\<lambda>sh. shape_type sh \<noteq> GROUP \<and> \<not> is_placeholder sh) (shapes example_base) =
             [example_picture, example_text_box]"
    "filter (\<lambda>sh. shape_type sh = GROUP) (shapes example_base) = [example_group]"
    by (simp_all add: example_base_def example_picture_def example_text_box_def
          example_group_def is_placeholder_def clone_placeholder_def)
  have l: "shapes (add_slide (slide_layout example_base)) = [clone_placeholder 0, clone_placeholder 1]"
    by (simp add: add_slide_def example_base_def example_layout_def)
  from t show ?thesis
    using example_builder_valid by (simp add: b f l deepcopy_def)
qed

section \<open>The error responses of the handler\<close>

text \<open>
  C3. When the \<open>template\<close> part or the \<open>content\<close> part of the request is absent, the
  handler returns status 400 with a JSON object that holds an error message, and prints
  nothing but the request line and the error line: the result does not depend on the
  loader or the parser, and no line of the builder is printed.
\<close>

theorem missing_file_part:
  assumes "files (str ''template'') = None \<or> files (str ''content'') = None"
  shows "generate_ppt tmpdir json_loads load_presentation files =
           (Inr (Json_response
                   [(str ''error'', str ''Both template and content files are required.'')] 400),
            [str ''[REQUEST] /generate-ppt POST received'',
             str ''[ERROR] Missing files in request'']) \<and>
         http_status (fst (generate_ppt tmpdir json_loads load_presentation files)) = 400"
proof -
  from assms have "\<not> truthy (files (str ''template'')) \<or> \<not> truthy (files (str ''content''))"
    by (auto simp: truthy_def)
  then show ?thesis
    by (auto simp: generate_ppt_def Let_def)
qed

theorem missing_file_part_witness:
  "(request_no_template (str ''template'') = None \<or>
    request_no_template (str ''content'') = None) \<and>
   http_status (fst (generate_ppt example_tmpdir example_json_loads example_load
     request_no_template)) = 400"
proof -
  have h: "request_no_template (str ''template'') = None \<or>
           request_no_template (str ''content'') = None"
    by (simp add: request_no_template_def str_def)
  from missing_file_part [OF h] h show ?thesis by blast
qed

lemma not_utf8_escapes:
  assumes "truthy (files (str ''template''))"
    and "files (str ''content'') = Some c" and "filename c \<noteq> []"
    and "decode_utf8 (map unat (stream c)) = None"
  shows "fst (generate_ppt tmpdir json_loads load_presentation files) = Inl UnicodeDecodeError"
  using assms by (simp add: generate_ppt_def Let_def truthy_def read_json_def)

text \<open>
  C4 as stated fails for a content part that is not UTF-8: such a file is not parseable
  as JSON, reading it raises UnicodeDecodeError, which the handler does not catch, and
  the response has status 500.
\<close>

theorem content_not_utf8_gives_500:
  "read_json example_json_loads (stream (the (request_bad_utf8 (str ''content'')))) =
     Inl UnicodeDecodeError \<and>
   fst (generate_ppt example_tmpdir example_json_loads example_load request_bad_utf8) =
     Inl UnicodeDecodeError \<and>
   http_status (fst (generate_ppt example_tmpdir example_json_loads example_load
     request_bad_utf8)) = 500"
proof -
  have c: "request_bad_utf8 (str ''content'') = Some \<lparr>filename = str ''c.json'', stream = [255]\<rparr>"
    by (simp add: request_bad_utf8_def)
  have t: "truthy (request_bad_utf8 (str ''template''))"
    by (simp add: request_bad_utf8_def truthy_def example_template_file_def str_def)
  have d: "decode_utf8 (map unat [255 :: 8 word]) = None"
    by simp
  have "fst (generate_ppt example_tmpdir example_json_loads example_load request_bad_utf8) =
     Inl UnicodeDecodeError"
    by (rule not_utf8_escapes [OF t c]) (simp_all add: d str_def)
  then show ?thesis
    by (simp add: c read_json_def)
qed

text \<open>
  C4, amended. When the content part of the request is UTF-8 text that the JSON parser
  rejects with JSONDecodeError, the handler returns status 400 with a JSON object that
  holds an error message, and no line of the builder is printed: the lines are those up
  to the report of the failure, or, when the template part is missing or a file name is
  empty, the two lines of the missing-files answer.
\<close>

theorem invalid_json_content:
  assumes "files (str ''content'') = Some c"
    and "decode_utf8 (map unat (stream c)) = Some text"
    and "json_loads (universal_newlines text) = Inl (JSONDecodeError msg)"
  shows "generate_ppt tmpdir json_loads load_presentation files =
           (if truthy (files (str ''template'')) \<and> filename c \<noteq> []
            then (Inr (Json_response
                         [(str ''error'', str ''Invalid JSON content file.'')] 400),
                  [str ''[REQUEST] /generate-ppt POST received'',
                   str ''[TEMP] Temporary directory created at: '' @ tmpdir,
                   str ''[FILE] Saving uploaded files'',
                   str ''[FILE] Reading content JSON'',
                   str ''[ERROR] JSON decode failed: '' @ msg])
            else (Inr (Json_response
                         [(str ''error'',
                           str ''Both template and content files are required.'')] 400),
                  [str ''[REQUEST] /generate-ppt POST received'',
                   str ''[ERROR] Missing files in request''])) \<and>
         http_status (fst (generate_ppt tmpdir json_loads load_presentation files)) = 400"
  using assms by (simp add: generate_ppt_def Let_def truthy_def read_json_def)

theorem invalid_json_content_witness:
  "request_bad_json (str ''content'') = Some \<lparr>filename = str ''c.json'', stream = [123]\<rparr> \<and>
   decode_utf8 (map unat [123 :: 8 word]) = Some (str ''{'') \<and>
   example_json_loads (universal_newlines (str ''{'')) =
     Inl (JSONDecodeError (str ''Expecting value'')) \<and>
   fst (generate_ppt example_tmpdir example_json_loads example_load request_bad_json) =
     Inr (Json_response [(str ''error'', str ''Invalid JSON content file.'')] 400) \<and>
   http_status (fst (generate_ppt example_tmpdir example_json_loads example_load
     request_bad_json)) = 400"
proof -
  have c: "request_bad_json (str ''content'') =
             Some \<lparr>filename = str ''c.json'', stream = [123]\<rparr>"
    by (simp add: request_bad_json_def)
  have d: "decode_utf8 (map unat (stream \<lparr>filename = str ''c.json'', stream = [123]\<rparr>)) =
             Some (str ''{'')"
    by (simp add: str_def)
  have j: "example_json_loads (universal_newlines (str ''{'')) =
             Inl (JSONDecodeError (str ''Expecting value''))"
    by (simp add: example_json_loads_def str_def)
  have t: "truthy (request_bad_json (str ''template''))"
    by (simp add: request_bad_json_def truthy_def example_template_file_def str_def)
  have n: "filename \<lparr>filename = str ''c.json'', stream = [123]\<rparr> \<noteq> []"
    by (simp add: str_def)
  from invalid_json_content
         [where files = request_bad_json and json_loads = example_json_loads and
            tmpdir = example_tmpdir and load_presentation = example_load, OF c d j] t n
  have "fst (generate_ppt example_tmpdir example_json_loads example_load request_bad_json) =
     Inr (Json_response [(str ''error'', str ''Invalid JSON content file.'')] 400)"
    and "http_status (fst (generate_ppt example_tmpdir example_json_loads example_load
     request_bad_json)) = 400"
    by simp_all
  moreover have "decode_utf8 (map unat [123 :: 8 word]) = Some (str ''{'')"
    by (simp add: str_def)
  ultimately show ?thesis using c j by blast
qed

section \<open>One call of add_content_slide\<close>

lemma add_content_slide_result:
  assumes "add_content_slide t c b = Inr b'"
  shows "\<exists>s. added_slide b t c = Some s \<and> slides (prs b') = slides (prs b) @ [s]"
proof -
  from add_content_slide_Inr_eq [OF assms] obtain sl where
    p: "populate_slide t c (duplicated_slide b) = Inr sl" and
    e: "b' = print (str ''[CONTENT] Slide '' @ [39] @ t @ [39] @ str '' added successfully'')
                  ((snd (duplicate_base_slide (print (str ''[CONTENT] Adding slide: '' @ t) b)))
                   \<lparr>prs := \<lparr>slides = slides (prs b) @ [sl]\<rparr>\<rparr>)" by blast
  have "added_slide b t c = Some sl" by (simp add: added_slide_eq p)
  moreover have "slides (prs b') = slides (prs b) @ [sl]" by (simp add: e)
  ultimately show ?thesis by blast
qed

lemma add_content_slide_raises:
  assumes "add_content_slide t c b = Inl x"
  shows "fst x = ValueError \<and> \<not> (writable t \<and> writable c)"
proof -
  from assms have "added_slide b t c = None" by (simp add: added_slide_def)
  with added_slide_ok [of t c b] have "\<not> (writable t \<and> writable c)" by auto
  with add_content_slide_Inl [OF assms] show ?thesis by simp
qed

lemma in_set_dropWhile: "x \<in> set xs \<Longrightarrow> \<not> P x \<Longrightarrow> x \<in> set (dropWhile P xs)"
  by (induction xs) auto

lemma in_set_strip: "x \<in> set l \<Longrightarrow> \<not> isspace x \<Longrightarrow> x \<in> set (strip l)"
  by (simp add: strip_def in_set_dropWhile)

lemma in_split_str:
  "x \<in> set s \<Longrightarrow> x \<noteq> sep \<Longrightarrow> \<exists>l\<in>set (split_str sep s). x \<in> set l"
proof (induction s)
  case Nil
  then show ?case by simp
next
  case (Cons c cs)
  obtain l ls where r: "split_str sep cs = l # ls"
    using split_str_ne [of sep cs] by (cases "split_str sep cs") auto
  from Cons show ?case
    by (cases "c = sep") (auto simp: r)
qed

lemma isspace_xml_char: "isspace c \<Longrightarrow> xml_char c"
  by (auto simp: isspace_def xml_char_def)

lemma writable_of_content_lines:
  assumes "list_all writable (content_lines s)"
  shows "writable s"
proof (rule ccontr)
  assume "\<not> writable s"
  then obtain x where x: "x \<in> set s" "\<not> xml_char x"
    by (auto simp: writable_def list_all_iff)
  then have ns: "\<not> isspace x" using isspace_xml_char by blast
  with isspace_newline have "x \<noteq> newline" by auto
  from in_split_str [OF x(1) this] obtain l where l: "l \<in> set (split_str newline s)" "x \<in> set l"
    by blast
  from in_set_strip [OF l(2) ns] have m: "x \<in> set (strip l)" .
  then have "strip l \<noteq> []" by auto
  with l(1) have "strip l \<in> set (content_lines s)"
    by (auto simp: content_lines_def)
  with assms have "writable (strip l)" by (simp add: list_all_iff)
  with m x(2) show False by (auto simp: writable_def list_all_iff)
qed

lemma body_paragraphs_eq:
  "map body_paragraph (content_lines content) =
     map (\<lambda>l. \<lparr>p_text = escape_ctrl_chars (strip l), font_size = Some (Pt 18), level = 0\<rparr>)
       (filter (\<lambda>l. \<not> (\<forall>c\<in>set l. isspace c)) (split_str newline content))"
  by (simp add: content_lines_def filter_map comp_def strip_Nil_iff body_paragraph_def)

lemma example_content_lines:
  "map (\<lambda>l. \<lparr>p_text = escape_ctrl_chars (strip l), font_size = Some (Pt 18), level = 0\<rparr>)
     (filter (\<lambda>l. \<not> (\<forall>c\<in>set l. isspace c)) (split_str newline example_content)) =
   [\<lparr>p_text = str ''a_x000D_b'', font_size = Some 228600, level = 0\<rparr>,
    \<lparr>p_text = str ''b'', font_size = Some 228600, level = 0\<rparr>]"
proof -
  have s: "split_str newline example_content = [[97, 13, 98], [32, 9], [32, 98, 32]]"
    by (simp add: newline_def example_content_def)
  have t: "strip [97, 13, 98] = [97, 13, 98]" "strip [32, 98, 32] = [98]"
    by (simp_all add: strip_def isspace_def)
  have f: "filter (\<lambda>l. \<not> (\<forall>c\<in>set l. isspace c)) [[97, 13, 98], [32, 9], [32, 98, 32]] =
             [[97, 13, 98], [32, 98, 32]]"
    by (simp add: isspace_def)
  have e: "escape_char 97 = [97]" "escape_char 13 = str ''_x000D_''" "escape_char 98 = [98]"
    by (simp_all add: escape_char_def ctrl_char_def hex_digit_def str_def)
  show ?thesis
    unfolding s f by (simp add: t e Pt_def) (simp add: str_def)
qed

section \<open>The content\<close>

lemma example_unwritable_content:
  "raised (add_content_slide (str ''T'') [65535] example_builder) = Some ValueError"
proof -
  have "added_slide example_builder (str ''T'') [65535] = None"
  proof (cases "added_slide example_builder (str ''T'') [65535]")
    case None
    then show ?thesis .
  next
    case (Some s)
    from content_frame_added(2) [OF Some example_has_placeholders(2)]
    have "writable [65535]" by (rule writable_of_content_lines)
    then show ?thesis by (simp add: writable_def xml_char_def)
  qed
  then show ?thesis by (simp add: raised_add_content_slide)
qed

text \<open>
  C5 as stated fails for a content string that holds a code point XML cannot carry, such
  as U+FFFF: the paragraph is added, the assignment to \<open>p.text\<close> raises ValueError, and
  \<open>add_content_slide\<close> leaves no slide whose body holds a paragraph of 18 points for
  that line.
\<close>

theorem unwritable_content_raises:
  "valid_builder example_builder \<and> has_body_placeholder example_builder \<and>
   filter (\<lambda>l. \<not> (\<forall>c\<in>set l. isspace c)) (split_str newline [65535]) = [[65535]] \<and>
   raised (add_content_slide (str ''T'') [65535] example_builder) = Some ValueError \<and>
   slides_of (add_content_slide (str ''T'') [65535] example_builder) = None"
proof -
  have "filter (\<lambda>l. \<not> (\<forall>c\<in>set l. isspace c)) (split_str newline [65535]) = [[65535]]"
    by (simp add: newline_def isspace_def)
  moreover from example_unwritable_content
  have "slides_of (add_content_slide (str ''T'') [65535] example_builder) = None"
    by (simp add: raised_def slides_of_def split: sum.splits)
  ultimately show ?thesis
    using example_builder_valid example_has_placeholders(2) example_unwritable_content
    by simp
qed

text \<open>
  C5, amended. On a slide whose layout provides a body placeholder, \<open>add_content_slide\<close>
  either raises ValueError, which it does only when the title or the content holds a code
  point XML cannot carry, or appends one slide whose body text frame is the cleared first
  paragraph followed by exactly one paragraph per line of the content that is not
  whitespace only, in order, each holding the stripped line with its control characters
  escaped, at 18 points and outline level 0; the content is then free of such code
  points.
\<close>

theorem content_paragraphs:
  assumes "valid_builder b" and "has_body_placeholder b"
  shows "case add_content_slide title content b of
           Inl (e, out) \<Rightarrow> e = ValueError \<and> \<not> (writable title \<and> writable content)
         | Inr b' \<Rightarrow>
             writable content \<and>
             (\<exists>s. slides (prs b') = slides (prs b) @ [s] \<and>
                content_frame s =
                  Some (TextFrame empty_paragraph
                    (map (\<lambda>l. \<lparr>p_text = escape_ctrl_chars (strip l),
                                font_size = Some (Pt 18), level = 0\<rparr>)
                       (filter (\<lambda>l. \<not> (\<forall>c\<in>set l. isspace c))
                          (split_str newline content)))))"
proof (cases "add_content_slide title content b")
  case (Inl x)
  from add_content_slide_raises [OF Inl] show ?thesis
    by (cases x) (simp add: Inl)
next
  case (Inr b')
  from add_content_slide_result [OF Inr] obtain s where
    a: "added_slide b title content = Some s" and
    s: "slides (prs b') = slides (prs b) @ [s]" by blast
  from content_frame_added(2) [OF a assms(2)] have "writable content"
    by (rule writable_of_content_lines)
  moreover from content_frame_added(1) [OF a] assms(2)
  have "content_frame s =
      Some (TextFrame empty_paragraph
        (map (\<lambda>l. \<lparr>p_text = escape_ctrl_chars (strip l), font_size = Some (Pt 18), level = 0\<rparr>)
           (filter (\<lambda>l. \<not> (\<forall>c\<in>set l. isspace c)) (split_str newline content))))"
    by (simp add: body_paragraphs_eq)
  ultimately show ?thesis
    using s by (simp add: Inr)
qed

theorem content_paragraphs_witness:
  "valid_builder example_builder \<and> has_body_placeholder example_builder \<and>
   (\<exists>b' s. add_content_slide (str ''T'') example_content example_builder = Inr b' \<and>
      slides (prs b') = [example_base, s] \<and>
      content_frame s =
        Some (TextFrame empty_paragraph
          [\<lparr>p_text = str ''a_x000D_b'', font_size = Some 228600, level = 0\<rparr>,
           \<lparr>p_text = str ''b'', font_size = Some 228600, level = 0\<rparr>]))"
proof -
  have "writable example_content"
    by (simp add: writable_def xml_char_def example_content_def)
  from added_slide_ok [OF example_writable(9) this, of example_builder]
  obtain s0 where "added_slide example_builder (str ''T'') example_content = Some s0" by blast
  from add_content_slide_Some [OF this] obtain b'
    where r: "add_content_slide (str ''T'') example_content example_builder = Inr b'" by blast
  from content_paragraphs [OF example_builder_valid example_has_placeholders(2),
      of "str ''T''" example_content]
  have "\<exists>s. slides (prs b') = [example_base, s] \<and>
      content_frame s =
        Some (TextFrame empty_paragraph
          [\<lparr>p_text = str ''a_x000D_b'', font_size = Some 228600, level = 0\<rparr>,
           \<lparr>p_text = str ''b'', font_size = Some 228600, level = 0\<rparr>])"
    unfolding example_content_lines by (simp add: r example_slides)
  with r show ?thesis
    using example_builder_valid example_has_placeholders(2) by blast
qed

section \<open>The title\<close>

lemma example_title_200_result:
  "\<exists>b' s. add_content_slide example_title_200 [] example_builder = Inr b' \<and>
      slides (prs b') = [example_base, s] \<and>
      title_text s = Some (replicate 197 97 @ str ''...'')"
proof -
  have "writable example_title_200"
    by (simp add: writable_def xml_char_def example_title_200_def list_all_iff)
  from added_slide_ok [OF this example_writable(10), of example_builder]
  obtain s where a: "added_slide example_builder example_title_200 [] = Some s" by blast
  from add_content_slide_Some [OF a] obtain b'
    where r: "add_content_slide example_title_200 [] example_builder = Inr b'" by blast
  from add_content_slide_result [OF r] a
  have s: "slides (prs b') = [example_base, s]" by (simp add: example_slides)
  have "list_all (\<lambda>c. \<not> ctrl_char c) (replicate 197 (97::nat) @ str ''...'')"
    by (simp add: list_all_iff ctrl_char_def str_def)
  then have "escape_ctrl_chars (replicate 197 (97::nat) @ str ''...'') =
      replicate 197 97 @ str ''...''"
    by (rule escape_no_ctrl)
  with title_text_added [OF a] example_has_placeholders(1)
  have "title_text s = Some (replicate 197 97 @ str ''...'')"
    by (simp add: truncated_title_def example_title_200_def)
  with r s show ?thesis by blast
qed

text \<open>
  C2 as stated says that a title of at most 200 characters is written unchanged. For a
  title of exactly 200 characters that fails: the guard is \<open>len(title) < 200\<close>, and the
  text written is the first 197 characters followed by \<open>...\<close>.
\<close>

theorem title_of_200_characters_is_cut:
  "length example_title_200 \<le> 200 \<and>
   replicate 197 97 @ str ''...'' \<noteq> example_title_200 \<and>
   (\<exists>b' s. add_content_slide example_title_200 [] example_builder = Inr b' \<and>
      slides (prs b') = [example_base, s] \<and>
      title_text s = Some (replicate 197 97 @ str ''...''))"
proof -
  have "replicate 197 (97::nat) @ str ''...'' \<noteq> replicate 200 97"
  proof
    assume "replicate 197 (97::nat) @ str ''...'' = replicate 200 97"
    then have "(replicate 197 (97::nat) @ str ''...'') ! 197 = replicate 200 97 ! 197" by simp
    then show False by (simp add: nth_append str_def)
  qed
  then show ?thesis
    using example_title_200_result by (simp add: example_title_200_def)
qed

text \<open>
  C2, amended. On a slide whose layout provides a title placeholder, \<open>add_content_slide\<close>
  either raises ValueError, which it does only when the title or the content holds a code
  point XML cannot carry, or appends one slide; the text its title placeholder then holds
  is the title when the title is shorter than 200 characters, and the first 197
  characters of the title followed by \<open>...\<close> when the title has 200 characters or more,
  in both cases with each control character (00 to 08, 0C to 1F) replaced by its escape
  \<open>_xHHHH_\<close>; for a title without control characters it is exactly that text. The text
  assigned is then free of code points XML cannot carry.
\<close>

theorem title_written:
  assumes "valid_builder b" and "has_title_placeholder b"
  shows "case add_content_slide title content b of
           Inl (e, out) \<Rightarrow> e = ValueError \<and> \<not> (writable title \<and> writable content)
         | Inr b' \<Rightarrow>
             writable (if length title < 200 then title else take 197 title @ str ''...'') \<and>
             (\<exists>s. slides (prs b') = slides (prs b) @ [s] \<and>
                title_text s =
                  Some (escape_ctrl_chars
                    (if length title < 200 then title else take 197 title @ str ''...'')) \<and>
                (list_all (\<lambda>c. \<not> ctrl_char c) title \<longrightarrow>
                   title_text s =
                     Some (if length title < 200 then title else take 197 title @ str ''...'')))"
proof (cases "add_content_slide title content b")
  case (Inl x)
  from add_content_slide_raises [OF Inl] show ?thesis
    by (cases x) (simp add: Inl)
next
  case (Inr b')
  from add_content_slide_result [OF Inr] obtain s where
    a: "added_slide b title content = Some s" and
    s: "slides (prs b') = slides (prs b) @ [s]" by blast
  have w: "writable (truncated_title title)"
    by (rule title_writable_added [OF a assms(2)])
  have t: "title_text s = Some (escape_ctrl_chars (truncated_title title))"
    using title_text_added [OF a] assms(2) by simp
  have "list_all (\<lambda>c. \<not> ctrl_char c) title \<Longrightarrow>
      escape_ctrl_chars (truncated_title title) = truncated_title title"
  proof (rule escape_no_ctrl)
    assume "list_all (\<lambda>c. \<not> ctrl_char c) title"
    then show "list_all (\<lambda>c. \<not> ctrl_char c) (truncated_title title)"
      by (auto simp: truncated_title_def list_all_iff ctrl_char_def str_def dest: in_set_takeD)
  qed
  with w t s show ?thesis
    by (simp add: Inr truncated_title_def)
qed

theorem title_written_witness:
  "valid_builder example_builder \<and> has_title_placeholder example_builder \<and>
   (\<exists>b' s. add_content_slide (str ''Intro'') (str ''x'') example_builder = Inr b' \<and>
      slides (prs b') = [example_base, s] \<and> title_text s = Some (str ''Intro''))"
proof -
  from added_slide_ok [OF example_writable(7) example_writable(4), of example_builder]
  obtain s0 where "added_slide example_builder (str ''Intro'') (str ''x'') = Some s0" by blast
  from add_content_slide_Some [OF this] obtain b'
    where r: "add_content_slide (str ''Intro'') (str ''x'') example_builder = Inr b'" by blast
  have c: "list_all (\<lambda>c. \<not> ctrl_char c) (str ''Intro'')"
    by (simp add: ctrl_char_def str_def)
  have l: "length (str ''Intro'') < 200" by (simp add: str_def)
  from title_written [OF example_builder_valid example_has_placeholders(1),
      of "str ''Intro''" "str ''x''"]
  have "\<exists>s. slides (prs b') = [example_base, s] \<and> title_text s = Some (str ''Intro'')"
    by (auto simp: r example_slides c l)
  with r show ?thesis
    using example_builder_valid example_has_placeholders(1) by blast
qed

text \<open>
  C9 as stated fails for a title with a control character: the library stores the
  character 1F as the seven characters \<open>_x001F_\<close>, so for a title of 199 characters that
  starts with it, which is not cut, the title placeholder holds 205 characters.
\<close>

theorem control_character_lengthens_title:
  "length example_title_ctrl = 199 \<and>
   length (str ''_x001F_'' @ replicate 198 97) = 205 \<and>
   (\<exists>b' s. add_content_slide example_title_ctrl [] example_builder = Inr b' \<and>
      slides (prs b') = [example_base, s] \<and>
      title_text s = Some (str ''_x001F_'' @ replicate 198 97))"
proof -
  have "writable example_title_ctrl"
    by (simp add: writable_def xml_char_def example_title_ctrl_def list_all_iff)
  from added_slide_ok [OF this example_writable(10), of example_builder]
  obtain s where a: "added_slide example_builder example_title_ctrl [] = Some s" by blast
  from add_content_slide_Some [OF a] obtain b'
    where r: "add_content_slide example_title_ctrl [] example_builder = Inr b'" by blast
  from add_content_slide_result [OF r] a
  have s: "slides (prs b') = [example_base, s]" by (simp add: example_slides)
  have "list_all (\<lambda>c. \<not> ctrl_char c) (replicate 198 (97::nat))"
    by (simp add: list_all_iff ctrl_char_def)
  then have e: "escape_ctrl_chars (replicate 198 (97::nat)) = replicate 198 97"
    by (rule escape_no_ctrl)
  have c: "escape_char 31 = str ''_x001F_''"
    by (simp add: escape_char_def ctrl_char_def hex_digit_def str_def)
  from title_text_added [OF a] example_has_placeholders(1)
  have "title_text s = Some (str ''_x001F_'' @ replicate 198 97)"
    by (simp add: truncated_title_def example_title_ctrl_def e c)
  with r s have "\<exists>b' s. add_content_slide example_title_ctrl [] example_builder = Inr b' \<and>
      slides (prs b') = [example_base, s] \<and>
      title_text s = Some (str ''_x001F_'' @ replicate 198 97)" by blast
  then show ?thesis
    by (simp add: example_title_ctrl_def str_def)
qed

text \<open>
  C9, amended. On a slide whose layout provides a title placeholder, \<open>add_content_slide\<close>
  either raises ValueError, which it does only when the title or the content holds a code
  point XML cannot carry, or appends one slide. The text assigned to its title
  placeholder has at most 200 characters; for a title of exactly 200 characters it is the
  first 197 characters followed by \<open>...\<close>. The text the placeholder then holds is the
  text assigned with each control character replaced by its escape of seven characters:
  it has at most 1400 characters, and for a title without control characters it is the
  text assigned and has at most 200 characters.
\<close>

theorem title_at_most_200:
  assumes "valid_builder b" and "has_title_placeholder b"
  shows "case add_content_slide title content b of
           Inl (e, out) \<Rightarrow> e = ValueError \<and> \<not> (writable title \<and> writable content)
         | Inr b' \<Rightarrow>
             (\<exists>s txt. slides (prs b') = slides (prs b) @ [s] \<and> title_text s = Some txt \<and>
                txt = escape_ctrl_chars (truncated_title title) \<and>
                length (truncated_title title) \<le> 200 \<and>
                (length title = 200 \<longrightarrow> truncated_title title = take 197 title @ str ''...'') \<and>
                length txt \<le> 1400 \<and>
                (list_all (\<lambda>c. \<not> ctrl_char c) title \<longrightarrow>
                   txt = truncated_title title \<and> length txt \<le> 200))"
proof (cases "add_content_slide title content b")
  case (Inl x)
  from add_content_slide_raises [OF Inl] show ?thesis
    by (cases x) (simp add: Inl)
next
  case (Inr b')
  from add_content_slide_result [OF Inr] obtain s where
    a: "added_slide b title content = Some s" and
    s: "slides (prs b') = slides (prs b) @ [s]" by blast
  let ?txt = "escape_ctrl_chars (truncated_title title)"
  have t: "title_text s = Some ?txt"
    using title_text_added [OF a] assms(2) by simp
  have l: "length (truncated_title title) \<le> 200" by (rule length_truncated_title)
  have "length ?txt \<le> 7 * length (truncated_title title)"
    by (rule length_escape_ctrl_chars)
  with l have m: "length ?txt \<le> 1400" by simp
  have c: "list_all (\<lambda>c. \<not> ctrl_char c) title \<Longrightarrow> ?txt = truncated_title title"
  proof (rule escape_no_ctrl)
    assume "list_all (\<lambda>c. \<not> ctrl_char c) title"
    then show "list_all (\<lambda>c. \<not> ctrl_char c) (truncated_title title)"
      by (auto simp: truncated_title_def list_all_iff ctrl_char_def str_def dest: in_set_takeD)
  qed
  have k: "length title = 200 \<longrightarrow> truncated_title title = take 197 title @ str ''...''"
    by (simp add: truncated_title_def)
  have "slides (prs b') = slides (prs b) @ [s] \<and> title_text s = Some ?txt \<and>
        ?txt = escape_ctrl_chars (truncated_title title) \<and>
        length (truncated_title title) \<le> 200 \<and>
        (length title = 200 \<longrightarrow> truncated_title title = take 197 title @ str ''...'') \<and>
        length ?txt \<le> 1400 \<and>
        (list_all (\<lambda>c. \<not> ctrl_char c) title \<longrightarrow>
           ?txt = truncated_title title \<and> length ?txt \<le> 200)"
    using s t l k m c by auto
  then show ?thesis
    unfolding Inr by (simp only: sum.case) blast
qed

theorem title_at_most_200_witness:
  "valid_builder example_builder \<and> has_title_placeholder example_builder \<and>
   length example_title_200 = 200 \<and>
   (\<exists>b' s txt. add_content_slide example_title_200 [] example_builder = Inr b' \<and>
      slides (prs b') = [example_base, s] \<and> title_text s = Some txt \<and>
      txt = take 197 example_title_200 @ str ''...'' \<and> length txt \<le> 200)"
proof -
  have "writable example_title_200"
    by (simp add: writable_def xml_char_def example_title_200_def list_all_iff)
  from added_slide_ok [OF this example_writable(10), of example_builder]
  obtain s0 where "added_slide example_builder example_title_200 [] = Some s0" by blast
  from add_content_slide_Some [OF this] obtain b'
    where r: "add_content_slide example_title_200 [] example_builder = Inr b'" by blast
  have c: "list_all (\<lambda>c. \<not> ctrl_char c) example_title_200"
    by (simp add: list_all_iff ctrl_char_def example_title_200_def)
  have l: "length example_title_200 = 200"
    by (simp add: example_title_200_def)
  from title_at_most_200 [OF example_builder_valid example_has_placeholders(1),
      of example_title_200 "[]"]
  obtain s t where "slides (prs b') = [example_base, s]" "title_text s = Some t"
    "t = take 197 example_title_200 @ str ''...''" "length t \<le> 200"
    unfolding r using c l by (auto simp: example_slides)
  with r l show ?thesis
    using example_builder_valid example_has_placeholders(1) by blast
qed

section \<open>The number and order of the slides\<close>

lemma example_full_outline_keys:
  "\<forall>(name, ds)\<in>set example_full_outline.
     \<forall>d\<in>set ds. d (str ''title'') \<noteq> None \<and> d (str ''content'') \<noteq> None"
  by (simp add: example_full_outline_def example_A_def example_C_def example_D_def str_def)

lemma example_unwritable_args:
  "slide_args example_unwritable = Some ([65535], str ''x'')"
  by (simp add: slide_args_def example_unwritable_def str_def)

lemma example_unwritable_title:
  "added_slide example_builder [65535] (str ''x'') = None"
proof (cases "added_slide example_builder [65535] (str ''x'')")
  case None
  then show ?thesis .
next
  case (Some s)
  from title_writable_added [OF Some example_has_placeholders(1)]
  show ?thesis by (simp add: writable_def xml_char_def truncated_title_def)
qed

lemma build_from_content_raises:
  assumes "build_from_content cd b = Inl x"
  shows "fst x = ValueError \<and> \<not> writable_outline cd"
  using build_from_content_Inl [OF assms] build_from_content_ok [of cd b] assms by auto

lemma built_slides:
  assumes "valid_builder b" and "build_from_content cd b = Inr b'"
  shows "map Some (slides (prs b')) =
           map Some (slides (prs b)) @
           concat (map (\<lambda>(name, ds). added_slide b name [] #
             map (\<lambda>(t, c). added_slide b t c) (List.map_filter slide_args ds)) cd)"
  using progress_build_from_content(1) [OF assms] by (simp add: progress_def)

lemma count_keyed:
  assumes "\<forall>(name, ds)\<in>set cd.
             \<forall>d\<in>set ds. d (str ''title'') \<noteq> None \<and> d (str ''content'') \<noteq> None"
  shows "length (concat (map (\<lambda>(name, ds). added_slide b name [] #
           map (\<lambda>(t, c). added_slide b t c) (List.map_filter slide_args ds)) cd)) =
         (\<Sum>(name, ds)\<leftarrow>cd. 1 + length ds)"
  using assms
proof (induction cd)
  case Nil
  then show ?case by simp
next
  case (Cons sec cd)
  obtain name ds where s: "sec = (name, ds)" by (cases sec)
  from Cons.prems have k: "\<forall>d\<in>set ds. d (str ''title'') \<noteq> None \<and> d (str ''content'') \<noteq> None"
    by (simp add: s)
  from Cons show ?case
    by (simp add: s map_filter_all_keys [OF k])
qed

text \<open>
  C1 as stated fails for an outline whose descriptors all have both keys when one of the
  titles holds a code point XML cannot carry, such as U+FFFF: the assignment to the title
  placeholder raises ValueError, which the \<open>try\<close> statement does not catch, so
  \<open>build_from_content\<close> raises and produces no document.
\<close>

theorem keyed_outline_aborts:
  "PresentationBuilder (str ''/tmp/x/template.pptx'') (Inr example_template) [] =
     Inr example_builder \<and>
   length (slides example_template) = 1 \<and>
   list_all (\<lambda>(name, ds).
      list_all (\<lambda>d. d (str ''title'') \<noteq> None \<and> d (str ''content'') \<noteq> None) ds)
     example_keyed_unwritable \<and>
   raised (build_from_content example_keyed_unwritable example_builder) = Some ValueError \<and>
   slides_of (build_from_content example_keyed_unwritable example_builder) = None"
proof -
  have l: "length (slides example_template) = 1"
    by (simp add: example_template_def)
  have k: "list_all (\<lambda>(name, ds).
      list_all (\<lambda>d. d (str ''title'') \<noteq> None \<and> d (str ''content'') \<noteq> None) ds)
     example_keyed_unwritable"
    by (simp add: example_keyed_unwritable_def example_A_def example_C_def
          example_unwritable_def str_def)
  have r: "raised (build_from_content example_keyed_unwritable example_builder) =
      Some ValueError"
    by (rule build_raises [OF example_builder_valid])
       (simp add: example_keyed_unwritable_def example_args example_unwritable_args
          map_filter_simps example_unwritable_title)
  then have "slides_of (build_from_content example_keyed_unwritable example_builder) = None"
    by (simp add: raised_def slides_of_def split: sum.splits)
  with example_builder_init l k r show ?thesis by simp
qed

text \<open>
  C1, amended. For a template of exactly one slide and an outline of \<open>N\<close> sections, the
  \<open>i\<close>-th with \<open>k\<^sub>i\<close> descriptors, all of which have both \<open>title\<close> and \<open>content\<close>,
  \<open>build_from_content\<close> either raises ValueError and produces no document, which it does
  only when a section name, a title or a content holds a code point XML cannot carry, or
  leaves a presentation of \<open>1 + \<Sum> (1 + k\<^sub>i)\<close> slides: the base slide, and for each section
  one header slide and one slide per descriptor.
\<close>

theorem slide_count:
  assumes "PresentationBuilder path (Inr template) out = Inr b"
    and "length (slides template) = 1"
    and "\<forall>(name, ds)\<in>set cd.
           \<forall>d\<in>set ds. d (str ''title'') \<noteq> None \<and> d (str ''content'') \<noteq> None"
  shows "case build_from_content cd b of
           Inl (e, out') \<Rightarrow> e = ValueError \<and> \<not> writable_outline cd
         | Inr b' \<Rightarrow> length (slides (prs b')) = 1 + (\<Sum>(name, ds)\<leftarrow>cd. 1 + length ds)"
proof (cases "build_from_content cd b")
  case (Inl x)
  from build_from_content_raises [OF Inl] show ?thesis
    by (cases x) (simp add: Inl)
next
  case (Inr b')
  from assms(1) have v: "valid_builder b" and p: "prs b = template"
    by (simp_all add: PresentationBuilder_Inr)
  have "length (map Some (slides (prs b'))) =
      length (map Some (slides (prs b)) @
           concat (map (\<lambda>(name, ds). added_slide b name [] #
             map (\<lambda>(t, c). added_slide b t c) (List.map_filter slide_args ds)) cd))"
    by (simp only: built_slides [OF v Inr])
  then have "length (slides (prs b')) = 1 + (\<Sum>(name, ds)\<leftarrow>cd. 1 + length ds)"
    using assms(2) by (simp add: p count_keyed [OF assms(3)])
  then show ?thesis by (simp add: Inr)
qed

theorem slide_count_witness:
  "PresentationBuilder (str ''/tmp/x/template.pptx'') (Inr example_template) [] =
     Inr example_builder \<and>
   length (slides example_template) = 1 \<and>
   (\<exists>b'. build_from_content example_full_outline example_builder = Inr b' \<and>
      length (slides (prs b')) = 6)"
proof -
  have l: "length (slides example_template) = 1"
    by (simp add: example_template_def)
  from build_from_content_ok [OF example_writable_outlines(2), of example_builder]
  obtain b' where r: "build_from_content example_full_outline example_builder = Inr b'"
    by blast
  from slide_count [OF example_builder_init l example_full_outline_keys]
  have "length (slides (prs b')) = 1 + (\<Sum>(name, ds)\<leftarrow>example_full_outline. 1 + length ds)"
    by (simp add: r)
  also have "\<dots> = 6" by (simp add: example_full_outline_def)
  finally show ?thesis
    using example_builder_init l r by blast
qed

lemma header_and_keyed:
  "concat (map (\<lambda>(name, ds). added_slide b name [] #
     map (\<lambda>(t, c). added_slide b t c) (List.map_filter slide_args ds)) cd) =
   map (\<lambda>(t, c). added_slide b t c)
     (concat (map (\<lambda>(name, ds). (name, []) # List.map_filter slide_args ds) cd))"
  by (induction cd) auto

lemma list_all2_of_map_eq:
  "map f xs = map g ys \<Longrightarrow> list_all2 (\<lambda>x y. g y = f x) xs ys"
proof (induction xs arbitrary: ys)
  case Nil
  then show ?case by simp
next
  case (Cons x xs)
  then show ?case by (cases ys) auto
qed

lemma built_slides_list:
  assumes "valid_builder b" and "build_from_content cd b = Inr b'"
  shows "\<exists>new. slides (prs b') = slides (prs b) @ new \<and>
           list_all2 (\<lambda>s (t, c). added_slide b t c = Some s) new
             (concat (map (\<lambda>(name, ds). (name, []) # List.map_filter slide_args ds) cd))"
proof -
  let ?args = "concat (map (\<lambda>(name, ds). (name, []) # List.map_filter slide_args ds) cd)"
  from built_slides [OF assms]
  have "map Some (slides (prs b')) =
      map Some (slides (prs b)) @ map (\<lambda>(t, c). added_slide b t c) ?args"
    by (simp only: header_and_keyed)
  then obtain us vs where u: "slides (prs b') = us @ vs"
    and "map Some (slides (prs b)) = map Some us"
    and v: "map (\<lambda>(t, c). added_slide b t c) ?args = map Some vs"
    by (auto simp: map_eq_append_conv)
  then have "slides (prs b) = us" by (simp add: inj_map_eq_map)
  moreover from list_all2_of_map_eq [OF v [symmetric]]
  have "list_all2 (\<lambda>s (t, c). added_slide b t c = Some s) vs ?args"
    by (rule list_all2_mono) auto
  ultimately show ?thesis using u by blast
qed

lemma added_slide_texts:
  assumes "added_slide b t c = Some s"
  shows "title_text s =
           (if has_title_placeholder b
            then Some (escape_ctrl_chars
                   (if length t < 200 then t else take 197 t @ str ''...''))
            else None) \<and>
         content_frame s =
           (if has_body_placeholder b
            then Some (TextFrame empty_paragraph
                   (map (\<lambda>l. \<lparr>p_text = escape_ctrl_chars (strip l),
                               font_size = Some (Pt 18), level = 0\<rparr>)
                      (filter (\<lambda>l. \<not> (\<forall>c\<in>set l. isspace c)) (split_str newline c))))
            else None)"
  using title_text_added [OF assms] content_frame_added(1) [OF assms]
  by (simp add: truncated_title_def body_paragraphs_eq)

text \<open>
  C6 as stated fails for a section with a descriptor that lacks a key: such a descriptor
  gets no slide. The example outline has two sections with four descriptors, one of
  them without \<open>content\<close>, and the build appends five slides, not six.
\<close>

theorem descriptor_without_key_gets_no_slide:
  "valid_builder example_builder \<and>
   (\<Sum>(name, ds)\<leftarrow>example_outline. 1 + length ds) = 6 \<and>
   (\<exists>b'. build_from_content example_outline example_builder = Inr b' \<and>
      length (slides (prs b')) = length (slides (prs example_builder)) + 5)"
proof -
  from build_from_content_ok [OF example_writable_outlines(1), of example_builder]
  obtain b' where r: "build_from_content example_outline example_builder = Inr b'"
    by blast
  have "length (map Some (slides (prs b'))) =
      length (map Some (slides (prs example_builder)) @
           concat (map (\<lambda>(name, ds). added_slide example_builder name [] #
             map (\<lambda>(t, c). added_slide example_builder t c) (List.map_filter slide_args ds))
             example_outline))"
    by (simp only: built_slides [OF example_builder_valid r])
  then have "length (slides (prs b')) = length (slides (prs example_builder)) + 5"
    by (simp add: example_outline_def example_args map_filter_simps)
  moreover have "(\<Sum>(name, ds)\<leftarrow>example_outline. 1 + length ds) = 6"
    by (simp add: example_outline_def)
  ultimately show ?thesis
    using example_builder_valid r by blast
qed

text \<open>
  C6, amended. \<open>build_from_content\<close> either raises ValueError and produces no document,
  which it does only when a section name, a title or a content holds a code point XML
  cannot carry, or goes through the sections in the order of the mapping and appends for
  each section first the header slide, made by \<open>add_content_slide\<close> from the section
  name and the empty string, and then, in the order of the list, one slide for each
  descriptor that has both keys, made from its title and content; a descriptor that
  lacks a key gets no slide. On each of these slides the title placeholder, if the layout
  has one, holds the title cut as \<open>add_content_slide\<close> cuts it, with its control
  characters escaped, and the body placeholder, if the layout has one, holds after its
  cleared first paragraph one paragraph per line of the content that is not blank: none
  for a header slide.
\<close>

theorem build_order:
  assumes "valid_builder b"
  shows "case build_from_content cd b of
           Inl (e, out) \<Rightarrow> e = ValueError \<and> \<not> writable_outline cd
         | Inr b' \<Rightarrow>
             (\<exists>new. slides (prs b') = slides (prs b) @ new \<and>
                list_all2
                  (\<lambda>s (title, content).
                     added_slide b title content = Some s \<and>
                     title_text s =
                       (if has_title_placeholder b
                        then Some (escape_ctrl_chars
                               (if length title < 200 then title
                                else take 197 title @ str ''...''))
                        else None) \<and>
                     content_frame s =
                       (if has_body_placeholder b
                        then Some (TextFrame empty_paragraph
                               (map (\<lambda>l. \<lparr>p_text = escape_ctrl_chars (strip l),
                                           font_size = Some (Pt 18), level = 0\<rparr>)
                                  (filter (\<lambda>l. \<not> (\<forall>c\<in>set l. isspace c))
                                     (split_str newline content))))
                        else None))
                  new
                  (concat (map (\<lambda>(name, ds). (name, []) # List.map_filter slide_args ds) cd)))"
proof (cases "build_from_content cd b")
  case (Inl x)
  from build_from_content_raises [OF Inl] show ?thesis
    by (cases x) (simp add: Inl)
next
  case (Inr b')
  from built_slides_list [OF assms Inr] obtain new where
    n: "slides (prs b') = slides (prs b) @ new" and
    l: "list_all2 (\<lambda>s (t, c). added_slide b t c = Some s) new
          (concat (map (\<lambda>(name, ds). (name, []) # List.map_filter slide_args ds) cd))"
    by blast
  from l have "list_all2
                  (\<lambda>s (title, content).
                     added_slide b title content = Some s \<and>
                     title_text s =
                       (if has_title_placeholder b
                        then Some (escape_ctrl_chars
                               (if length title < 200 then title
                                else take 197 title @ str ''...''))
                        else None) \<and>
                     content_frame s =
                       (if has_body_placeholder b
                        then Some (TextFrame empty_paragraph
                               (map (\<lambda>l. \<lparr>p_text = escape_ctrl_chars (strip l),
                                           font_size = Some (Pt 18), level = 0\<rparr>)
                                  (filter (\<lambda>l. \<not> (\<forall>c\<in>set l. isspace c))
                                     (split_str newline content))))
                        else None))
                  new
                  (concat (map (\<lambda>(name, ds). (name, []) # List.map_filter slide_args ds) cd))"
  proof (rule list_all2_mono)
    fix s a
    assume "case a of (t, c) \<Rightarrow> added_slide b t c = Some s"
    then show "case a of (title, content) \<Rightarrow>
                     added_slide b title content = Some s \<and>
                     title_text s =
                       (if has_title_placeholder b
                        then Some (escape_ctrl_chars
                               (if length title < 200 then title
                                else take 197 title @ str ''...''))
                        else None) \<and>
                     content_frame s =
                       (if has_body_placeholder b
                        then Some (TextFrame empty_paragraph
                               (map (\<lambda>l. \<lparr>p_text = escape_ctrl_chars (strip l),
                                           font_size = Some (Pt 18), level = 0\<rparr>)
                                  (filter (\<lambda>l. \<not> (\<forall>c\<in>set l. isspace c))
                                     (split_str newline content))))
                        else None)"
      using added_slide_texts [of b "fst a" "snd a" s] by (cases a) simp
  qed
  with n show ?thesis
    unfolding Inr by (simp only: sum.case) blast
qed

lemma example_texts:
  "escape_ctrl_chars (str ''Intro'') = str ''Intro''"
  "escape_ctrl_chars (str ''A'') = str ''A''"
  "escape_ctrl_chars (str ''C'') = str ''C''"
  "escape_ctrl_chars (str ''End'') = str ''End''"
  "escape_ctrl_chars (str ''D'') = str ''D''"
  "length (str ''Intro'') < 200" "length (str ''A'') < 200" "length (str ''C'') < 200"
  "length (str ''End'') < 200" "length (str ''D'') < 200"
  by (simp_all add: escape_char_def ctrl_char_def str_def)

lemma example_bodies:
  "map (\<lambda>l. \<lparr>p_text = escape_ctrl_chars (strip l), font_size = Some (Pt 18), level = 0\<rparr>)
     (filter (\<lambda>l. \<not> (\<forall>c\<in>set l. isspace c)) (split_str newline [])) = []"
  "map (\<lambda>l. \<lparr>p_text = escape_ctrl_chars (strip l), font_size = Some (Pt 18), level = 0\<rparr>)
     (filter (\<lambda>l. \<not> (\<forall>c\<in>set l. isspace c)) (split_str newline (str ''x''))) =
     [\<lparr>p_text = str ''x'', font_size = Some 228600, level = 0\<rparr>]"
  "map (\<lambda>l. \<lparr>p_text = escape_ctrl_chars (strip l), font_size = Some (Pt 18), level = 0\<rparr>)
     (filter (\<lambda>l. \<not> (\<forall>c\<in>set l. isspace c)) (split_str newline (str ''y''))) =
     [\<lparr>p_text = str ''y'', font_size = Some 228600, level = 0\<rparr>]"
  "map (\<lambda>l. \<lparr>p_text = escape_ctrl_chars (strip l), font_size = Some (Pt 18), level = 0\<rparr>)
     (filter (\<lambda>l. \<not> (\<forall>c\<in>set l. isspace c)) (split_str newline (str ''z''))) =
     [\<lparr>p_text = str ''z'', font_size = Some 228600, level = 0\<rparr>]"
  by (simp_all add: newline_def isspace_def strip_def escape_char_def ctrl_char_def Pt_def
        str_def)

lemma example_bodies_simp:
  "map (\<lambda>l. \<lparr>p_text = escape_ctrl_chars (strip l), font_size = Some (Pt 18), level = 0\<rparr>)
     (filter (\<lambda>l. \<exists>c\<in>set l. \<not> isspace c) (split_str newline (str ''x''))) =
     [\<lparr>p_text = str ''x'', font_size = Some 228600, level = 0\<rparr>]"
  "map (\<lambda>l. \<lparr>p_text = escape_ctrl_chars (strip l), font_size = Some (Pt 18), level = 0\<rparr>)
     (filter (\<lambda>l. \<exists>c\<in>set l. \<not> isspace c) (split_str newline (str ''y''))) =
     [\<lparr>p_text = str ''y'', font_size = Some 228600, level = 0\<rparr>]"
  "map (\<lambda>l. \<lparr>p_text = escape_ctrl_chars (strip l), font_size = Some (Pt 18), level = 0\<rparr>)
     (filter (\<lambda>l. \<exists>c\<in>set l. \<not> isspace c) (split_str newline (str ''z''))) =
     [\<lparr>p_text = str ''z'', font_size = Some 228600, level = 0\<rparr>]"
  using example_bodies(2-4) by simp_all

theorem build_order_witness:
  "valid_builder example_builder \<and>
   (\<exists>b' s1 s2 s3 s4 s5.
      build_from_content example_full_outline example_builder = Inr b' \<and>
      slides (prs b') = [example_base, s1, s2, s3, s4, s5] \<and>
      title_text s1 = Some (str ''Intro'') \<and>
      content_frame s1 = Some (TextFrame empty_paragraph []) \<and>
      title_text s2 = Some (str ''A'') \<and>
      content_frame s2 =
        Some (TextFrame empty_paragraph
          [\<lparr>p_text = str ''x'', font_size = Some 228600, level = 0\<rparr>]) \<and>
      title_text s3 = Some (str ''C'') \<and>
      content_frame s3 =
        Some (TextFrame empty_paragraph
          [\<lparr>p_text = str ''y'', font_size = Some 228600, level = 0\<rparr>]) \<and>
      title_text s4 = Some (str ''End'') \<and>
      content_frame s4 = Some (TextFrame empty_paragraph []) \<and>
      title_text s5 = Some (str ''D'') \<and>
      content_frame s5 =
        Some (TextFrame empty_paragraph
          [\<lparr>p_text = str ''z'', font_size = Some 228600, level = 0\<rparr>]))"
proof -
  from build_from_content_ok [OF example_writable_outlines(2), of example_builder]
  obtain b' where r: "build_from_content example_full_outline example_builder = Inr b'"
    by blast
  have a: "concat (map (\<lambda>(name, ds). (name, []) # List.map_filter slide_args ds)
             example_full_outline) =
           [(str ''Intro'', []), (str ''A'', str ''x''), (str ''C'', str ''y''),
            (str ''End'', []), (str ''D'', str ''z'')]"
    by (simp add: example_full_outline_def example_args map_filter_simps)
  from build_order [OF example_builder_valid, of example_full_outline]
  have "\<exists>s1 s2 s3 s4 s5.
      slides (prs b') = [example_base, s1, s2, s3, s4, s5] \<and>
      title_text s1 = Some (str ''Intro'') \<and>
      content_frame s1 = Some (TextFrame empty_paragraph []) \<and>
      title_text s2 = Some (str ''A'') \<and>
      content_frame s2 =
        Some (TextFrame empty_paragraph
          [\<lparr>p_text = str ''x'', font_size = Some 228600, level = 0\<rparr>]) \<and>
      title_text s3 = Some (str ''C'') \<and>
      content_frame s3 =
        Some (TextFrame empty_paragraph
          [\<lparr>p_text = str ''y'', font_size = Some 228600, level = 0\<rparr>]) \<and>
      title_text s4 = Some (str ''End'') \<and>
      content_frame s4 = Some (TextFrame empty_paragraph []) \<and>
      title_text s5 = Some (str ''D'') \<and>
      content_frame s5 =
        Some (TextFrame empty_paragraph
          [\<lparr>p_text = str ''z'', font_size = Some 228600, level = 0\<rparr>])"
    unfolding r a
    by (simp only: sum.case)
       (auto simp: list_all2_Cons2 example_has_placeholders example_texts example_bodies_simp
          example_slides)
  with r show ?thesis
    using example_builder_valid by blast
qed

section \<open>Skipping a descriptor and going on\<close>

text \<open>
  C7 as stated fails for an outline in which a descriptor that lacks a key is followed by
  one whose title holds a code point XML cannot carry: the first is reported and
  skipped, the second makes \<open>add_content_slide\<close> raise ValueError, which is not caught,
  and the descriptor after it is never processed. No document is produced.
\<close>

theorem unwritable_title_aborts_build:
  "valid_builder example_builder \<and>
   example_abort_outline = [(str ''Intro'', [example_missing, example_unwritable, example_C])] \<and>
   slide_args example_missing = None \<and>
   slide_args example_unwritable = Some ([65535], str ''x'') \<and>
   slide_args example_C = Some (str ''C'', str ''y'') \<and>
   raised (build_from_content example_abort_outline example_builder) = Some ValueError \<and>
   slides_of (build_from_content example_abort_outline example_builder) = None"
proof -
  have r: "raised (build_from_content example_abort_outline example_builder) =
      Some ValueError"
    by (rule build_raises [OF example_builder_valid])
       (simp add: example_abort_outline_def example_args example_unwritable_args
          map_filter_simps example_unwritable_title)
  then have "slides_of (build_from_content example_abort_outline example_builder) = None"
    by (simp add: raised_def slides_of_def split: sum.splits)
  with r show ?thesis
    using example_builder_valid example_args(2,4) example_unwritable_args
    by (simp add: example_abort_outline_def)
qed

text \<open>
  C7, amended. \<open>build_from_content\<close> either raises ValueError and produces no document,
  which it does only when a section name, a title or a content holds a code point XML
  cannot carry, or reports and skips every descriptor that lacks \<open>title\<close> or \<open>content\<close>
  and goes on: the slides appended are, section by section, the header slide and one
  slide for each descriptor that has both keys, whatever descriptors were skipped before
  it; the error lines printed are the reports of the skipped descriptors, in order; and
  the build ends with its closing line.
\<close>

theorem skip_and_continue:
  assumes "valid_builder b"
  shows "case build_from_content cd b of
           Inl (e, out) \<Rightarrow> e = ValueError \<and> \<not> writable_outline cd
         | Inr b' \<Rightarrow>
             map Some (slides (prs b')) =
               map Some (slides (prs b)) @
               concat (map (\<lambda>(name, ds). added_slide b name [] #
                 map (\<lambda>(t, c). added_slide b t c) (List.map_filter slide_args ds)) cd) \<and>
             error_lines (printed b b') =
               concat (map (\<lambda>(name, ds).
                 map missing_key_line (filter (\<lambda>d. slide_args d = None) ds)) cd) \<and>
             last (stdout b') = str ''[BUILD] Presentation build complete''"
proof (cases "build_from_content cd b")
  case (Inl x)
  from build_from_content_raises [OF Inl] show ?thesis
    by (cases x) (simp add: Inl)
next
  case (Inr b')
  note p = progress_build_from_content [OF assms Inr]
  from p(1) have "extends b b' (concat (map (\<lambda>(name, ds).
                 map missing_key_line (filter (\<lambda>d. slide_args d = None) ds)) cd))"
    by (simp add: progress_def)
  from extends_printed [OF this] built_slides [OF assms Inr] p(2) show ?thesis
    by (simp add: Inr)
qed

theorem skip_and_continue_witness:
  "valid_builder example_builder \<and>
   (\<exists>b'. build_from_content example_outline example_builder = Inr b' \<and>
      map Some (slides (prs b')) =
        [Some example_base,
         added_slide example_builder (str ''Intro'') [],
         added_slide example_builder (str ''A'') (str ''x''),
         added_slide example_builder (str ''C'') (str ''y''),
         added_slide example_builder (str ''End'') [],
         added_slide example_builder (str ''D'') (str ''z'')] \<and>
      error_lines (printed example_builder b') =
        [str ''[ERROR] Missing key in slide data: '' @ [39] @ str ''content'' @ [39]] \<and>
      last (stdout b') = str ''[BUILD] Presentation build complete'')"
proof -
  from build_from_content_ok [OF example_writable_outlines(1), of example_builder]
  obtain b' where r: "build_from_content example_outline example_builder = Inr b'"
    by blast
  have m: "missing_key_line example_missing =
      str ''[ERROR] Missing key in slide data: '' @ [39] @ str ''content'' @ [39]"
    by (simp add: missing_key_line_def example_missing_def)
  from skip_and_continue [OF example_builder_valid, of example_outline]
  have "map Some (slides (prs b')) =
        [Some example_base,
         added_slide example_builder (str ''Intro'') [],
         added_slide example_builder (str ''A'') (str ''x''),
         added_slide example_builder (str ''C'') (str ''y''),
         added_slide example_builder (str ''End'') [],
         added_slide example_builder (str ''D'') (str ''z'')] \<and>
      error_lines (printed example_builder b') =
        [str ''[ERROR] Missing key in slide data: '' @ [39] @ str ''content'' @ [39]] \<and>
      last (stdout b') = str ''[BUILD] Presentation build complete''"
    unfolding r
    by (simp add: example_outline_def example_slides example_args map_filter_simps m)
  with r example_builder_valid show ?thesis
    by auto
qed

end
